theory Spec2Isabelle
  imports Main "HOL-Library.Word" "HOL-Library.Sublist"
begin

section \<open>Go strings and the line reader\<close>

text \<open>
  A Go string is a sequence of bytes, here a \<open>char list\<close>. The three library
  operations that \<open>Recv\<close> applies to a line are modelled on bytes:
  \<open>strings.TrimSpace\<close>, \<open>strings.SplitN\<close> with limit 2, and
  \<open>bufio.Reader.ReadString\<close> with delimiter newline.
\<close>

text \<open>
  The UTF-8 encodings of the code points for which Go's \<open>unicode.IsSpace\<close> holds:
  tab, line feed, vertical tab, form feed, carriage return, space, U+0085, U+00A0,
  U+1680, U+2000 to U+200A, U+2028, U+2029, U+202F, U+205F and U+3000.
\<close>

definition space_runes :: "string list" where
  "space_runes =
     map (\<lambda>c. [c]) [CHR 0x09, CHR 0x0A, CHR 0x0B, CHR 0x0C, CHR 0x0D, CHR 0x20] @
     ([CHR 0xC2, CHR 0x85] # [CHR 0xC2, CHR 0xA0] #
      [CHR 0xE1, CHR 0x9A, CHR 0x80] #
      [CHR 0xE2, CHR 0x80, CHR 0x80] # [CHR 0xE2, CHR 0x80, CHR 0x81] #
      [CHR 0xE2, CHR 0x80, CHR 0x82] # [CHR 0xE2, CHR 0x80, CHR 0x83] #
      [CHR 0xE2, CHR 0x80, CHR 0x84] # [CHR 0xE2, CHR 0x80, CHR 0x85] #
      [CHR 0xE2, CHR 0x80, CHR 0x86] # [CHR 0xE2, CHR 0x80, CHR 0x87] #
      [CHR 0xE2, CHR 0x80, CHR 0x88] # [CHR 0xE2, CHR 0x80, CHR 0x89] #
      [CHR 0xE2, CHR 0x80, CHR 0x8A] #
      [CHR 0xE2, CHR 0x80, CHR 0xA8] # [CHR 0xE2, CHR 0x80, CHR 0xA9] #
      [CHR 0xE2, CHR 0x80, CHR 0xAF] #
      [CHR 0xE2, CHR 0x81, CHR 0x9F] #
      [CHR 0xE3, CHR 0x80, CHR 0x80] # [])"

text \<open>
  \<open>drop_runes rs s\<close> removes from the front of \<open>s\<close> every leading occurrence of
  one of the byte sequences \<open>rs\<close>, until none is a prefix.
\<close>

fun drop_runes :: "string list \<Rightarrow> string \<Rightarrow> string" where
  "drop_runes rs [] = []"
| "drop_runes rs (c # cs) =
     (case find (\<lambda>e. prefix e (c # cs)) rs of
        None \<Rightarrow> c # cs
      | Some e \<Rightarrow> drop_runes rs (drop (length e - 1) cs))"

text \<open>
  \<open>strings.TrimSpace\<close>: leading white space is removed, then trailing white space
  (the same scan on the reversed bytes, against the reversed encodings).
\<close>

definition TrimSpace :: "string \<Rightarrow> string" where
  "TrimSpace s = rev (drop_runes (map rev space_runes) (rev (drop_runes space_runes s)))"

text \<open>
  \<open>split_first sep s\<close> cuts \<open>s\<close> around the first occurrence of \<open>sep\<close>:
  the bytes before it and the bytes after it.
\<close>

fun split_first :: "string \<Rightarrow> string \<Rightarrow> (string \<times> string) option" where
  "split_first sep [] = None"
| "split_first sep (c # cs) =
     (if prefix sep (c # cs) then Some ([], drop (length sep) (c # cs))
      else map_option (\<lambda>(a, b). (c # a, b)) (split_first sep cs))"

text \<open>\<open>strings.SplitN(s, sep, 2)\<close> for a non-empty separator: one or two parts.\<close>

definition SplitN2 :: "string \<Rightarrow> string \<Rightarrow> string list" where
  "SplitN2 s sep = (case split_first sep s of None \<Rightarrow> [s] | Some (a, b) \<Rightarrow> [a, b])"

subsection \<open>Errors\<close>

text \<open>
  Every error value and the one run-time panic that the modelled functions can produce.
  \<open>EOF\<close> is \<open>io.EOF\<close>, the value a caller compares against to detect the end of
  the stream; \<open>ReadFailure\<close> is any other error of the underlying body;
  \<open>NilDereference\<close> is Go's run-time panic on reading through a nil pointer.
\<close>

datatype error =
    EOF
  | ReadFailure string
  | InvalidSSE string
  | JsonSyntaxError
  | JsonTypeError
  | StreamError string
  | UnknownEvent string
  | RequestError string
  | HTTPStatusError string
  | NilDereference

subsection \<open>The buffered reader\<close>

text \<open>
  The response body is a finite sequence of bytes that ends in an error: \<open>EOF\<close> for
  a body that was closed normally, another error for a broken connection. A body that
  blocks for ever is outside this model.
\<close>

record Reader =
  unread :: string
  at_end :: error

text \<open>
  \<open>ReadString('\n')\<close> returns the bytes up to and including the first newline; when the
  bytes run out first it returns what is left together with the body's error.
\<close>

definition ReadString :: "Reader \<Rightarrow> (string \<times> error option) \<times> Reader" where
  "ReadString r =
     (case split_first ''\<newline>'' (unread r) of
        Some (l, rest) \<Rightarrow> ((l @ ''\<newline>'', None), r\<lparr>unread := rest\<rparr>)
      | None \<Rightarrow> ((unread r, Some (at_end r)), r\<lparr>unread := []\<rparr>))"

lemma split_first_shorter:
  "split_first sep s = Some (a, b) \<Longrightarrow> sep \<noteq> [] \<Longrightarrow> length b < length s"
proof (induction s arbitrary: a b)
  case Nil
  then show ?case by simp
next
  case (Cons c cs)
  show ?case
  proof (cases "prefix sep (c # cs)")
    case True
    with Cons.prems show ?thesis by (cases sep) auto
  next
    case False
    with Cons.prems obtain a' where "split_first sep cs = Some (a', b)"
      by (auto split: prod.splits)
    with Cons.IH Cons.prems(2) show ?thesis by fastforce
  qed
qed

lemma ReadString_shorter:
  "ReadString r = ((l, None), r') \<Longrightarrow> length (unread r') < length (unread r)"
  by (auto simp: ReadString_def split: option.splits dest: split_first_shorter)

text \<open>
  The read loop of \<open>Recv\<close> (the \<open>for\<close> statement). Its two local variables
  are the arguments \<open>eventType\<close> and \<open>data\<close>. The loop ends in one of three ways:
  \<open>break\<close> (at end of stream, or at a blank line when the event is not a ping), giving
  \<open>Inr (eventType, data)\<close>; \<open>return nil, err\<close> for a read error other than
  \<open>io.EOF\<close>; \<open>return nil, fmt.Errorf("invalid SSE format: %s", line)\<close>.
\<close>

type_synonym StreamEvent = string

function recv_loop ::
  "Reader \<Rightarrow> StreamEvent \<Rightarrow> string \<Rightarrow> (error + StreamEvent \<times> string) \<times> Reader" where
  "recv_loop r eventType data =
     (case ReadString r of
        ((line, Some err), r') \<Rightarrow>
          if err = EOF then (Inr (eventType, data), r') else (Inl err, r')
      | ((line, None), r') \<Rightarrow>
          (let line = TrimSpace line in
           if line = [] then
             (if eventType = ''ping'' then recv_loop r' eventType []
              else (Inr (eventType, data), r'))
           else
             (let parts = SplitN2 line '': '' in
              if length parts \<noteq> 2 then (Inl (InvalidSSE line), r')
              else
                (let field = parts ! 0; val = parts ! 1 in
                 if field = ''event'' then recv_loop r' val data
                 else if field = ''data'' then recv_loop r' eventType (data @ val @ ''\<newline>'')
                 else recv_loop r' eventType data))))"
  by pat_completeness auto
termination
  by (relation "measure (\<lambda>(r, eventType, data). length (unread r))")
     (auto dest: ReadString_shorter [OF sym])

declare recv_loop.simps [simp del]

section \<open>The data model\<close>

text \<open>
  Go's \<open>int\<close> is taken at 64 bits (the width on amd64 and arm64); \<open>+=\<close> wraps.
  Field names carry a prefix where two structs share a name. A pointer field is an
  \<open>option\<close>: \<open>None\<close> is nil.
\<close>

type_synonym go_int = "64 word"

record Usage =
  InputTokens :: go_int
  OutputTokens :: go_int

record ContentBlock =
  cb_Type :: string
  cb_Text :: string

record Message =
  m_ID :: string
  m_Type :: string
  m_Role :: string
  m_Content :: "ContentBlock list"
  m_Model :: string
  m_StopReason :: string
  m_StopSequence :: string
  m_Usage :: Usage

record MessageDelta =
  md_StopReason :: string
  md_StopSequence :: "string option"

record MessageDeltaWrapper =
  mdw_Type :: string
  mdw_Delta :: MessageDelta
  mdw_Usage :: "Usage option"

record TextDelta =
  td_Type :: string
  td_Text :: string

record ContentBlockDelta =
  cbd_Type :: string
  cbd_Index :: go_int
  cbd_Delta :: TextDelta

record MessageStreamEvent =
  ev_Type :: StreamEvent
  ev_Message :: "Message option"
  ev_Delta :: "MessageDelta option"
  ev_ContentBlock :: "ContentBlock option"
  ev_Index :: go_int

text \<open>The zero values (\<open>var x T\<close>).\<close>

definition zero_Usage :: Usage where
  "zero_Usage = \<lparr>InputTokens = 0, OutputTokens = 0\<rparr>"

definition zero_ContentBlock :: ContentBlock where
  "zero_ContentBlock = \<lparr>cb_Type = [], cb_Text = []\<rparr>"

definition zero_Message :: Message where
  "zero_Message =
     \<lparr>m_ID = [], m_Type = [], m_Role = [], m_Content = [], m_Model = [],
      m_StopReason = [], m_StopSequence = [], m_Usage = zero_Usage\<rparr>"

definition zero_MessageDelta :: MessageDelta where
  "zero_MessageDelta = \<lparr>md_StopReason = [], md_StopSequence = None\<rparr>"

definition zero_MessageDeltaWrapper :: MessageDeltaWrapper where
  "zero_MessageDeltaWrapper =
     \<lparr>mdw_Type = [], mdw_Delta = zero_MessageDelta, mdw_Usage = None\<rparr>"

definition zero_TextDelta :: TextDelta where
  "zero_TextDelta = \<lparr>td_Type = [], td_Text = []\<rparr>"

definition zero_ContentBlockDelta :: ContentBlockDelta where
  "zero_ContentBlockDelta = \<lparr>cbd_Type = [], cbd_Index = 0, cbd_Delta = zero_TextDelta\<rparr>"

definition zero_MessageStreamEvent :: MessageStreamEvent where
  "zero_MessageStreamEvent =
     \<lparr>ev_Type = [], ev_Message = None, ev_Delta = None, ev_ContentBlock = None,
      ev_Index = 0\<rparr>"

section \<open>Decoding JSON into the structs\<close>

text \<open>
  \<open>json.Unmarshal\<close> belongs to Go's standard library. It works in two stages. The
  first checks the text and reads it as a JSON value; it is a parameter \<open>parse\<close> of
  the model (\<open>None\<close> for a syntax error). The second stores the value into the target
  struct, guided by the struct's field tags; it is modelled below, following the
  documentation of \<open>encoding/json\<close>:
  \<^item> an object key matches a field when the two are equal, ignoring case;
  \<^item> a key that matches no field is skipped;
  \<^item> a field whose key is absent keeps its value;
  \<^item> \<open>null\<close> sets a pointer or slice to nil and leaves any other target unchanged;
  \<^item> a non-null value for a nil pointer allocates a zero value and decodes into it, for
    a non-nil pointer it decodes into the value pointed to;
  \<^item> an array decodes its element number \<open>i\<close> into the element that the slice
    already holds at \<open>i\<close>, or into a zero value beyond the slice's length, and the
    slice ends with the length of the array (elements that an earlier, longer array left
    in the slice's capacity are not modelled);
  \<^item> a value of the wrong kind (or a number that is no 64-bit integer, for an
    \<open>int\<close>) leaves its target unchanged, decoding goes on, and \<open>Unmarshal\<close>
    returns a type error at the end.
\<close>

datatype json =
    JNull
  | JBool bool
  | JNumber int
  | JNonInteger string
  | JString string
  | JArray "json list"
  | JObject "(string \<times> json) list"

text \<open>
  \<open>JNumber n\<close> is a number written as an integer literal; \<open>JNonInteger\<close> is a
  number written with a fraction or an exponent, which no \<open>int\<close> field accepts.
  A decoder takes the JSON value and the target's current value, and returns the new
  value and whether no type error occurred.
\<close>

type_synonym 'a decoder = "json \<Rightarrow> 'a \<Rightarrow> 'a \<times> bool"

text \<open>
  Case folding of an object key: ASCII capitals to lower case; the two non-ASCII
  code points that fold to ASCII letters, U+017F (long s) and U+212A (Kelvin sign), to
  \<open>s\<close> and \<open>k\<close>. Every field name below is lower-case ASCII, so a key matches a
  field exactly when its folding is the field's name.
\<close>

definition lower :: "char \<Rightarrow> char" where
  "lower c =
     (let n = (of_char c :: nat) in if 65 \<le> n \<and> n \<le> 90 then char_of (n + 32) else c)"

fun fold_name :: "string \<Rightarrow> string" where
  "fold_name [] = []"
| "fold_name (c # cs) =
     (if prefix [CHR 0xC5, CHR 0xBF] (c # cs) then CHR ''s'' # fold_name (drop 1 cs)
      else if prefix [CHR 0xE2, CHR 0x84, CHR 0xAA] (c # cs) then CHR ''k'' # fold_name (drop 2 cs)
      else lower c # fold_name cs)"

definition dec_string :: "string decoder" where
  "dec_string j t = (case j of JNull \<Rightarrow> (t, True) | JString x \<Rightarrow> (x, True) | _ \<Rightarrow> (t, False))"

definition dec_int :: "go_int decoder" where
  "dec_int j t =
     (case j of
        JNull \<Rightarrow> (t, True)
      | JNumber n \<Rightarrow> if - (2 ^ 63) \<le> n \<and> n < 2 ^ 63 then (word_of_int n, True) else (t, False)
      | _ \<Rightarrow> (t, False))"

definition dec_ptr :: "'a \<Rightarrow> 'a decoder \<Rightarrow> 'a option decoder" where
  "dec_ptr zero d j p =
     (case j of
        JNull \<Rightarrow> (None, True)
      | _ \<Rightarrow> (case d j (case p of None \<Rightarrow> zero | Some x \<Rightarrow> x) of (x, ok) \<Rightarrow> (Some x, ok)))"

fun dec_elems :: "'a \<Rightarrow> 'a decoder \<Rightarrow> json list \<Rightarrow> 'a list \<Rightarrow> 'a list \<times> bool" where
  "dec_elems zero d [] held = ([], True)"
| "dec_elems zero d (j # js) held =
     (case d j (case held of [] \<Rightarrow> zero | y # ys \<Rightarrow> y) of (x, ok) \<Rightarrow>
        (case dec_elems zero d js (case held of [] \<Rightarrow> [] | y # ys \<Rightarrow> ys) of
           (xs, oks) \<Rightarrow> (x # xs, ok \<and> oks)))"

definition dec_slice :: "'a \<Rightarrow> 'a decoder \<Rightarrow> 'a list decoder" where
  "dec_slice zero d j t =
     (case j of
        JNull \<Rightarrow> ([], True)
      | JArray js \<Rightarrow> dec_elems zero d js t
      | _ \<Rightarrow> (t, False))"

text \<open>
  A struct is decoded key by key, in the order of the object; \<open>fld k\<close> is the
  decoder that the field named \<open>k\<close> applies to the struct.
\<close>

fun dec_fields :: "(string \<Rightarrow> 'a decoder) \<Rightarrow> (string \<times> json) list \<Rightarrow> 'a \<Rightarrow> 'a \<times> bool" where
  "dec_fields fld [] t = (t, True)"
| "dec_fields fld ((k, j) # kvs) t =
     (case fld (fold_name k) j t of (t', ok) \<Rightarrow>
        (case dec_fields fld kvs t' of (t'', oks) \<Rightarrow> (t'', ok \<and> oks)))"

definition dec_struct :: "(string \<Rightarrow> 'a decoder) \<Rightarrow> 'a decoder" where
  "dec_struct fld j t =
     (case j of
        JNull \<Rightarrow> (t, True)
      | JObject kvs \<Rightarrow> dec_fields fld kvs t
      | _ \<Rightarrow> (t, False))"

definition store :: "('a \<Rightarrow> 'b) \<Rightarrow> ('b \<Rightarrow> 'a \<Rightarrow> 'a) \<Rightarrow> 'b decoder \<Rightarrow> 'a decoder" where
  "store get put d j t = (case d j (get t) of (x, ok) \<Rightarrow> (put x t, ok))"

definition skip :: "'a decoder" where
  "skip j t = (t, True)"

definition fields_Usage :: "string \<Rightarrow> Usage decoder" where
  "fields_Usage k =
     (if k = ''input_tokens'' then store InputTokens (\<lambda>x t. t\<lparr>InputTokens := x\<rparr>) dec_int
      else if k = ''output_tokens'' then store OutputTokens (\<lambda>x t. t\<lparr>OutputTokens := x\<rparr>) dec_int
      else skip)"

definition fields_ContentBlock :: "string \<Rightarrow> ContentBlock decoder" where
  "fields_ContentBlock k =
     (if k = ''type'' then store cb_Type (\<lambda>x t. t\<lparr>cb_Type := x\<rparr>) dec_string
      else if k = ''text'' then store cb_Text (\<lambda>x t. t\<lparr>cb_Text := x\<rparr>) dec_string
      else skip)"

definition fields_Message :: "string \<Rightarrow> Message decoder" where
  "fields_Message k =
     (if k = ''id'' then store m_ID (\<lambda>x t. t\<lparr>m_ID := x\<rparr>) dec_string
      else if k = ''type'' then store m_Type (\<lambda>x t. t\<lparr>m_Type := x\<rparr>) dec_string
      else if k = ''role'' then store m_Role (\<lambda>x t. t\<lparr>m_Role := x\<rparr>) dec_string
      else if k = ''content'' then
        store m_Content (\<lambda>x t. t\<lparr>m_Content := x\<rparr>)
          (dec_slice zero_ContentBlock (dec_struct fields_ContentBlock))
      else if k = ''model'' then store m_Model (\<lambda>x t. t\<lparr>m_Model := x\<rparr>) dec_string
      else if k = ''stop_reason'' then
        store m_StopReason (\<lambda>x t. t\<lparr>m_StopReason := x\<rparr>) dec_string
      else if k = ''stop_sequence'' then
        store m_StopSequence (\<lambda>x t. t\<lparr>m_StopSequence := x\<rparr>) dec_string
      else if k = ''usage'' then
        store m_Usage (\<lambda>x t. t\<lparr>m_Usage := x\<rparr>) (dec_struct fields_Usage)
      else skip)"

definition fields_MessageDelta :: "string \<Rightarrow> MessageDelta decoder" where
  "fields_MessageDelta k =
     (if k = ''stop_reason'' then
        store md_StopReason (\<lambda>x t. t\<lparr>md_StopReason := x\<rparr>) dec_string
      else if k = ''stop_sequence'' then
        store md_StopSequence (\<lambda>x t. t\<lparr>md_StopSequence := x\<rparr>) (dec_ptr [] dec_string)
      else skip)"

definition fields_MessageDeltaWrapper :: "string \<Rightarrow> MessageDeltaWrapper decoder" where
  "fields_MessageDeltaWrapper k =
     (if k = ''type'' then store mdw_Type (\<lambda>x t. t\<lparr>mdw_Type := x\<rparr>) dec_string
      else if k = ''delta'' then
        store mdw_Delta (\<lambda>x t. t\<lparr>mdw_Delta := x\<rparr>) (dec_struct fields_MessageDelta)
      else if k = ''usage'' then
        store mdw_Usage (\<lambda>x t. t\<lparr>mdw_Usage := x\<rparr>)
          (dec_ptr zero_Usage (dec_struct fields_Usage))
      else skip)"

definition fields_TextDelta :: "string \<Rightarrow> TextDelta decoder" where
  "fields_TextDelta k =
     (if k = ''type'' then store td_Type (\<lambda>x t. t\<lparr>td_Type := x\<rparr>) dec_string
      else if k = ''text'' then store td_Text (\<lambda>x t. t\<lparr>td_Text := x\<rparr>) dec_string
      else skip)"

definition fields_ContentBlockDelta :: "string \<Rightarrow> ContentBlockDelta decoder" where
  "fields_ContentBlockDelta k =
     (if k = ''type'' then store cbd_Type (\<lambda>x t. t\<lparr>cbd_Type := x\<rparr>) dec_string
      else if k = ''index'' then store cbd_Index (\<lambda>x t. t\<lparr>cbd_Index := x\<rparr>) dec_int
      else if k = ''delta'' then
        store cbd_Delta (\<lambda>x t. t\<lparr>cbd_Delta := x\<rparr>) (dec_struct fields_TextDelta)
      else skip)"

definition fields_MessageStreamEvent :: "string \<Rightarrow> MessageStreamEvent decoder" where
  "fields_MessageStreamEvent k =
     (if k = ''type'' then store ev_Type (\<lambda>x t. t\<lparr>ev_Type := x\<rparr>) dec_string
      else if k = ''message'' then
        store ev_Message (\<lambda>x t. t\<lparr>ev_Message := x\<rparr>)
          (dec_ptr zero_Message (dec_struct fields_Message))
      else if k = ''delta'' then
        store ev_Delta (\<lambda>x t. t\<lparr>ev_Delta := x\<rparr>)
          (dec_ptr zero_MessageDelta (dec_struct fields_MessageDelta))
      else if k = ''content_block'' then
        store ev_ContentBlock (\<lambda>x t. t\<lparr>ev_ContentBlock := x\<rparr>)
          (dec_ptr zero_ContentBlock (dec_struct fields_ContentBlock))
      else if k = ''index'' then store ev_Index (\<lambda>x t. t\<lparr>ev_Index := x\<rparr>) dec_int
      else skip)"

text \<open>
  \<open>json.Unmarshal(data, &t)\<close>: the target after the call, and the error returned.
  A syntax error is found before anything is stored.
\<close>

definition Unmarshal ::
  "(string \<Rightarrow> json option) \<Rightarrow> (string \<Rightarrow> 'a decoder) \<Rightarrow> string \<Rightarrow> 'a \<Rightarrow> 'a \<times> error option" where
  "Unmarshal parse fld data t =
     (case parse data of
        None \<Rightarrow> (t, Some JsonSyntaxError)
      | Some j \<Rightarrow>
          (case dec_struct fld j t of
             (t', ok) \<Rightarrow> (t', if ok then None else Some JsonTypeError)))"

section \<open>The stream handle\<close>

text \<open>
  The HTTP response as far as the code reads it: the status, the body, and what
  \<open>Body.Close()\<close> returns.
\<close>

record Response =
  StatusCode :: int
  Status :: string
  Body :: Reader
  CloseResult :: "error option"
  BodyClosed :: bool

text \<open>
  \<open>MessageStream\<close>. The field \<open>reader\<close> is \<open>bufio.NewReader(resp.Body)\<close>; all
  bytes are consumed through it. \<open>Close\<close> marks the body closed and returns what
  \<open>Body.Close()\<close> returns; what a read after \<open>Close\<close> finds depends on the
  reader's buffer and is not modelled.
\<close>

record MessageStream =
  resp :: Response
  reader :: Reader
  event :: MessageStreamEvent
  ignoreUnknownEvents :: bool

definition Close :: "MessageStream \<Rightarrow> error option \<times> MessageStream" where
  "Close s = (CloseResult (resp s), s\<lparr>resp := (resp s)\<lparr>BodyClosed := True\<rparr>\<rparr>)"

definition ErrorUnknownEvent :: "MessageStream \<Rightarrow> MessageStream" where
  "ErrorUnknownEvent s = s\<lparr>ignoreUnknownEvents := False\<rparr>"

text \<open>
  The second half of \<open>Recv\<close>, after the loop: the \<open>if data.Len() > 0\<close> statement
  with its \<open>switch eventType\<close>, and the final \<open>return &s.event, nil\<close>. The result
  \<open>Inr ev\<close> is the event struct as the caller finds it behind the returned pointer,
  at the moment of the return. In the \<open>message_delta\<close> case \<open>delta.Usage\<close> is a
  pointer, nil when the payload has no \<open>usage\<close> key; reading
  \<open>delta.Usage.OutputTokens\<close> through nil is the panic \<open>NilDereference\<close>.
\<close>

definition recv_decode ::
  "(string \<Rightarrow> json option) \<Rightarrow> StreamEvent \<Rightarrow> string \<Rightarrow> MessageStream \<Rightarrow>
     (error + MessageStreamEvent) \<times> MessageStream" where
  "recv_decode parse eventType data s0 =
     (if length data > 0 then
        (let s = s0\<lparr>event := (event s0)\<lparr>ev_Type := eventType\<rparr>\<rparr> in
         if eventType = ''message_start'' \<or> eventType = ''message_stop'' then
           (case Unmarshal parse fields_MessageStreamEvent data (event s) of
              (ev, Some err) \<Rightarrow> (Inl err, s\<lparr>event := ev\<rparr>)
            | (ev, None) \<Rightarrow> (Inr ev, s\<lparr>event := ev\<rparr>))
         else if eventType = ''message_delta'' then
           (case Unmarshal parse fields_MessageDeltaWrapper data zero_MessageDeltaWrapper of
              (delta, Some err) \<Rightarrow> (Inl err, s)
            | (delta, None) \<Rightarrow>
                (let s1 = s\<lparr>event := (event s)\<lparr>ev_Delta := Some (mdw_Delta delta)\<rparr>\<rparr> in
                 case ev_Message (event s1) of
                   None \<Rightarrow> (Inr (event s1), s1)
                 | Some m \<Rightarrow>
                     (case mdw_Usage delta of
                        None \<Rightarrow> (Inl NilDereference, s1)
                      | Some u \<Rightarrow>
                          (let m' = m\<lparr>m_Usage := (m_Usage m)
                                 \<lparr>OutputTokens := OutputTokens (m_Usage m) + OutputTokens u\<rparr>\<rparr>;
                               s2 = s1\<lparr>event := (event s1)\<lparr>ev_Message := Some m'\<rparr>\<rparr>
                           in (Inr (event s2), s2)))))
         else if eventType = ''content_block_start'' \<or> eventType = ''content_block_stop'' then
           (case Unmarshal parse fields_ContentBlock data zero_ContentBlock of
              (contentBlock, Some err) \<Rightarrow> (Inl err, s)
            | (contentBlock, None) \<Rightarrow>
                (let s1 = s\<lparr>event := (event s)\<lparr>ev_ContentBlock := Some contentBlock\<rparr>\<rparr>
                 in (Inr (event s1), s1)))
         else if eventType = ''content_block_delta'' then
           (case Unmarshal parse fields_ContentBlockDelta data zero_ContentBlockDelta of
              (delta, Some err) \<Rightarrow> (Inl err, s)
            | (delta, None) \<Rightarrow>
                (let s1 = s\<lparr>event := (event s)
                       \<lparr>ev_ContentBlock := Some \<lparr>cb_Type = td_Type (cbd_Delta delta),
                                                  cb_Text = td_Text (cbd_Delta delta)\<rparr>,
                        ev_Index := cbd_Index delta\<rparr>\<rparr>
                 in (Inr (event s1), s1)))
         else if eventType = ''error'' then (Inl (StreamError data), s)
         else if \<not> ignoreUnknownEvents s then (Inl (UnknownEvent eventType), s)
         else (Inr (event s), s))
      else (Inr (event s0), s0))"

text \<open>\<open>Recv\<close>: the loop, then the decoding of what the loop collected.\<close>

definition Recv ::
  "(string \<Rightarrow> json option) \<Rightarrow> MessageStream \<Rightarrow> (error + MessageStreamEvent) \<times> MessageStream" where
  "Recv parse s =
     (case recv_loop (reader s) [] [] of
        (Inl err, r) \<Rightarrow> (Inl err, s\<lparr>reader := r\<rparr>)
      | (Inr (eventType, data), r) \<Rightarrow> recv_decode parse eventType data (s\<lparr>reader := r\<rparr>))"

text \<open>
  The request as \<open>newRequest\<close> builds it, and the client. The header is a map from
  the names as the code spells them (Go stores them in canonical capitalisation; no two
  names used here coincide under it). \<open>httpClient\<close> stands for \<open>httpClient.Do\<close>:
  the transport, which answers a request with an error or a response. The fields
  \<open>maxRetries\<close> and \<open>timeout\<close> are never read by the code modelled here.
\<close>

record Request =
  Method :: string
  URL :: string
  Header :: "string \<rightharpoonup> string"
  RequestBody :: string

record Client =
  apiKey :: string
  authToken :: string
  baseURL :: string
  httpClient :: "Request \<Rightarrow> error + Response"
  userAgent :: string
  streamAccept :: string
  apiVersion :: string
  betaVersion :: string

definition defaultContentType :: string where
  "defaultContentType = ''application/json''"

definition defaultAccept :: string where
  "defaultAccept = ''application/json''"

text \<open>
  \<open>newRequest\<close>. The argument \<open>new_err\<close> is the error, if any, of
  \<open>http.NewRequestWithContext\<close>; \<open>body\<close> is the JSON text that \<open>jsonBody\<close>
  makes of the parameters.
\<close>

definition newRequest ::
  "Client \<Rightarrow> error option \<Rightarrow> string \<Rightarrow> string \<Rightarrow> string \<Rightarrow> error + Request" where
  "newRequest c new_err method path body =
     (case new_err of
        Some err \<Rightarrow> Inl err
      | None \<Rightarrow>
          (let h0 = Map.empty(''Content-Type'' \<mapsto> defaultContentType);
               h1 = h0(''Accept'' \<mapsto> defaultAccept);
               h2 = h1(''User-Agent'' \<mapsto> userAgent c);
               h3 = h2(''anthropic-version'' \<mapsto> apiVersion c);
               h4 = (if betaVersion c \<noteq> [] then h3(''anthropic-beta'' \<mapsto> apiVersion c) else h3);
               h5 = (if apiKey c \<noteq> [] then h4(''X-API-Key'' \<mapsto> apiKey c)
                     else if authToken c \<noteq> [] then h4(''Authorization'' \<mapsto> ''Bearer '' @ authToken c)
                     else h4)
           in Inr \<lparr>Method = method, URL = baseURL c @ path, Header = h5, RequestBody = body\<rparr>))"

text \<open>
  \<open>StreamMessage\<close>. The argument \<open>body\<close> is the JSON text of the parameters after
  \<open>params.Stream = true\<close>. \<open>http.StatusBadRequest\<close> is 400. On the status error
  the code closes the body before it returns; the response is then dropped, so the model
  does not record it.
\<close>

definition StatusBadRequest :: int where
  "StatusBadRequest = 400"

definition StreamMessage :: "Client \<Rightarrow> error option \<Rightarrow> string \<Rightarrow> error + MessageStream" where
  "StreamMessage c new_err body =
     (case newRequest c new_err ''POST'' ''/v1/messages'' body of
        Inl err \<Rightarrow> Inl err
      | Inr req0 \<Rightarrow>
          (let req = req0\<lparr>Header := (Header req0)(''Accept'' \<mapsto> streamAccept c)\<rparr> in
           case httpClient c req of
             Inl err \<Rightarrow> Inl err
           | Inr rsp \<Rightarrow>
               if StatusCode rsp \<ge> StatusBadRequest then Inl (HTTPStatusError (Status rsp))
               else Inr \<lparr>resp = rsp, reader = Body rsp, event = zero_MessageStreamEvent,
                         ignoreUnknownEvents = True\<rparr>))"

text \<open>The methods of a handle, and a caller's sequence of calls.\<close>

datatype call = CallRecv | CallClose | CallErrorUnknownEvent

fun do_call :: "(string \<Rightarrow> json option) \<Rightarrow> call \<Rightarrow> MessageStream \<Rightarrow> MessageStream" where
  "do_call parse CallRecv s = snd (Recv parse s)"
| "do_call parse CallClose s = snd (Close s)"
| "do_call parse CallErrorUnknownEvent s = ErrorUnknownEvent s"

fun do_calls :: "(string \<Rightarrow> json option) \<Rightarrow> call list \<Rightarrow> MessageStream \<Rightarrow> MessageStream" where
  "do_calls parse [] s = s"
| "do_calls parse (c # cs) s = do_calls parse cs (do_call parse c s)"

section \<open>Frames on the wire\<close>

text \<open>
  A value that can stand after \<open>event: \<close> or \<open>data: \<close> on one line and be read
  back unchanged: it is not empty, holds no newline, and does not end in white space
  (which \<open>TrimSpace\<close> would remove).
\<close>

definition wire :: "string \<Rightarrow> bool" where
  "wire v \<longleftrightarrow> v \<noteq> [] \<and> CHR 0x0A \<notin> set v \<and> (\<forall>e \<in> set space_runes. \<not> suffix e v)"

text \<open>
  A frame: the event line, one line for each element of \<open>ds\<close>, and the blank line.
  \<open>payload ds\<close> is what the loop collects in \<open>data\<close> for these lines.
\<close>

definition data_lines :: "string list \<Rightarrow> string" where
  "data_lines ds = concat (map (\<lambda>d. ''data: '' @ d @ ''\<newline>'') ds)"

definition payload :: "string list \<Rightarrow> string" where
  "payload ds = concat (map (\<lambda>d. d @ ''\<newline>'') ds)"

definition sse_frame :: "StreamEvent \<Rightarrow> string list \<Rightarrow> string" where
  "sse_frame e ds = ''event: '' @ e @ ''\<newline>'' @ data_lines ds @ ''\<newline>''"

text \<open>The handle \<open>s\<close> with the bytes \<open>b\<close> still to be read, followed by \<open>x\<close>.\<close>

definition unread_is :: "MessageStream \<Rightarrow> string \<Rightarrow> error \<Rightarrow> MessageStream" where
  "unread_is s b x = s\<lparr>reader := \<lparr>unread = b, at_end = x\<rparr>\<rparr>"

text \<open>The eight event names of the \<open>const\<close> block.\<close>

definition recognized :: "StreamEvent list" where
  "recognized =
     [''ping'', ''error'', ''message_start'', ''message_stop'', ''message_delta'',
      ''content_block_start'', ''content_block_stop'', ''content_block_delta'']"

text \<open>\<open>n\<close> successive calls of \<open>Recv\<close>: what each returned, and the handle afterwards.\<close>

fun pulls ::
  "(string \<Rightarrow> json option) \<Rightarrow> nat \<Rightarrow> MessageStream \<Rightarrow>
     (error + MessageStreamEvent) list \<times> MessageStream" where
  "pulls parse 0 s = ([], s)"
| "pulls parse (Suc n) s =
     (case Recv parse s of (res, s') \<Rightarrow>
        (case pulls parse n s' of (ress, s'') \<Rightarrow> (res # ress, s'')))"

text \<open>
  The client that \<open>NewClient()\<close> returns when the environment holds no key, over a
  transport that answers every request with \<open>rsp\<close>.
\<close>

definition client_answering :: "Response \<Rightarrow> Client" where
  "client_answering rsp =
     \<lparr>apiKey = [], authToken = [], baseURL = ''https://api.anthropic.com'',
      httpClient = (\<lambda>req. Inr rsp), userAgent = ''anthropic-go/0.1.0'',
      streamAccept = ''text/event-stream'', apiVersion = ''2023-06-01'', betaVersion = []\<rparr>"

text \<open>A response with status 200 and the handle that \<open>StreamMessage\<close> makes of it.\<close>

definition ok_response :: "string \<Rightarrow> Response" where
  "ok_response b =
     \<lparr>StatusCode = 200, Status = ''200 OK'', Body = \<lparr>unread = b, at_end = EOF\<rparr>,
      CloseResult = None, BodyClosed = False\<rparr>"

definition fresh_stream :: "string \<Rightarrow> MessageStream" where
  "fresh_stream b =
     \<lparr>resp = ok_response b, reader = Body (ok_response b), event = zero_MessageStreamEvent,
      ignoreUnknownEvents = True\<rparr>"

text \<open>
  Payloads as the service sends them, and their reading as JSON values. The table stands
  for the parser of \<open>encoding/json\<close> on these texts; \<open>Recv\<close> hands it each payload
  with the newline that the loop appends.
\<close>

definition start_json :: string where
  \<open>start_json = ''{"type":"message_start","message":{"id":"m1","role":"assistant","content":[],"usage":{"input_tokens":10,"output_tokens":1}}}''\<close>

definition delta_json :: string where
  \<open>delta_json = ''{"type":"message_delta","delta":{"stop_reason":"end_turn"},"usage":{"output_tokens":5}}''\<close>

definition delta_no_usage_json :: string where
  \<open>delta_no_usage_json = ''{"type":"message_delta","delta":{"stop_reason":"end_turn"}}''\<close>

definition stop_json :: string where
  \<open>stop_json = ''{"type":"message_stop"}''\<close>

definition error_json :: string where
  \<open>error_json = ''{"type":"error","error":{"type":"overloaded_error"}}''\<close>

definition future_json :: string where
  \<open>future_json = ''{"type":"future_event"}''\<close>

definition text_json :: "string \<Rightarrow> string" where
  \<open>text_json t = ''{"type":"content_block_delta","index":7,"delta":{"type":"text_delta","text":"'' @ t @ ''"}}''\<close>

definition text_tree :: "string \<Rightarrow> json" where
  "text_tree t =
     JObject [(''type'', JString ''content_block_delta''), (''index'', JNumber 7),
       (''delta'', JObject [(''type'', JString ''text_delta''), (''text'', JString t)])]"

definition example_parse :: "string \<Rightarrow> json option" where
  "example_parse = map_of
    [(start_json @ ''\<newline>'',
        JObject [(''type'', JString ''message_start''),
                 (''message'', JObject [(''id'', JString ''m1''), (''role'', JString ''assistant''),
                    (''content'', JArray []),
                    (''usage'', JObject [(''input_tokens'', JNumber 10),
                                         (''output_tokens'', JNumber 1)])])]),
     (delta_json @ ''\<newline>'',
        JObject [(''type'', JString ''message_delta''),
                 (''delta'', JObject [(''stop_reason'', JString ''end_turn'')]),
                 (''usage'', JObject [(''output_tokens'', JNumber 5)])]),
     (delta_no_usage_json @ ''\<newline>'',
        JObject [(''type'', JString ''message_delta''),
                 (''delta'', JObject [(''stop_reason'', JString ''end_turn'')])]),
     (stop_json @ ''\<newline>'', JObject [(''type'', JString ''message_stop'')]),
     (future_json @ ''\<newline>'', JObject [(''type'', JString ''future_event'')]),
     (text_json ''A'' @ ''\<newline>'', text_tree ''A''),
     (text_json ''B'' @ ''\<newline>'', text_tree ''B''),
     (text_json ''C'' @ ''\<newline>'', text_tree ''C'')]"

text \<open>
  The caller of the repository's test, \<open>TestMessagesStream\<close>: for each event returned,
  \<open>if m.ContentBlock != nil { content += m.ContentBlock.Text }\<close>; \<open>collect\<close> does this
  for a list of results, up to the first error.
\<close>

definition accumulate :: "MessageStreamEvent \<Rightarrow> string \<Rightarrow> string" where
  "accumulate m content =
     (case ev_ContentBlock m of None \<Rightarrow> content | Some cb \<Rightarrow> content @ cb_Text cb)"

fun collect :: "(error + MessageStreamEvent) list \<Rightarrow> string \<Rightarrow> string" where
  "collect [] content = content"
| "collect (Inl err # ress) content = content"
| "collect (Inr m # ress) content = collect ress (accumulate m content)"

text \<open>
  A run of \<open>content_block_delta\<close> frames with one data line each; what \<open>Recv\<close>
  decodes from such a line; the text fragment in it; and the two fields of a returned
  event that the caller reads.
\<close>

definition delta_frames :: "string list \<Rightarrow> string" where
  "delta_frames ds = concat (map (\<lambda>d. sse_frame ''content_block_delta'' [d]) ds)"

definition decoded_delta :: "(string \<Rightarrow> json option) \<Rightarrow> string \<Rightarrow> ContentBlockDelta \<times> error option" where
  "decoded_delta parse d =
     Unmarshal parse fields_ContentBlockDelta (d @ ''\<newline>'') zero_ContentBlockDelta"

definition fragment :: "(string \<Rightarrow> json option) \<Rightarrow> string \<Rightarrow> string" where
  "fragment parse d = td_Text (cbd_Delta (fst (decoded_delta parse d)))"

definition seen :: "error + MessageStreamEvent \<Rightarrow> error + ContentBlock option \<times> go_int" where
  "seen res = map_sum id (\<lambda>m. (ev_ContentBlock m, ev_Index m)) res"

text \<open>
  A \<open>content_block_delta\<close> payload described by what it carries: the line on the wire,
  and the members of the JSON object that the line spells, as the service sends them
  (\<open>type\<close>, then the block index \<open>index\<close>, then \<open>delta\<close> with its own
  \<open>type\<close> and the text fragment \<open>text\<close>). \<open>carried_by parse p\<close> holds when the
  line reads as that object and the index is in the range of Go's \<open>int\<close>.
\<close>

record DeltaPayload =
  dp_line :: string
  dp_type :: string
  dp_index :: int
  dp_delta_type :: string
  dp_text :: string

definition delta_tree :: "DeltaPayload \<Rightarrow> json" where
  "delta_tree p =
     JObject [(''type'', JString (dp_type p)), (''index'', JNumber (dp_index p)),
       (''delta'', JObject [(''type'', JString (dp_delta_type p)),
                            (''text'', JString (dp_text p))])]"

definition carried_by :: "(string \<Rightarrow> json option) \<Rightarrow> DeltaPayload \<Rightarrow> bool" where
  "carried_by parse p \<longleftrightarrow>
     wire (dp_line p) \<and> parse (dp_line p @ ''\<newline>'') = Some (delta_tree p)
     \<and> - (2 ^ 63) \<le> dp_index p \<and> dp_index p < 2 ^ 63"

text \<open>The payload \<open>text_json t\<close>: the fragment \<open>t\<close> at block index 7.\<close>

definition text_payload :: "string \<Rightarrow> DeltaPayload" where
  "text_payload t =
     \<lparr>dp_line = text_json t, dp_type = ''content_block_delta'', dp_index = 7,
      dp_delta_type = ''text_delta'', dp_text = t\<rparr>"

text \<open>
  A caller that follows the iterator contract: it calls \<open>Recv\<close> until a call returns
  an error, at most \<open>n\<close> times, and keeps what each call returned.
\<close>

fun pull_until_error ::
  "(string \<Rightarrow> json option) \<Rightarrow> nat \<Rightarrow> MessageStream \<Rightarrow>
     (error + MessageStreamEvent) list \<times> MessageStream" where
  "pull_until_error parse 0 s = ([], s)"
| "pull_until_error parse (Suc n) s =
     (case Recv parse s of
        (Inl err, s') \<Rightarrow> ([Inl err], s')
      | (Inr ev, s') \<Rightarrow>
          (case pull_until_error parse n s' of (ress, s'') \<Rightarrow> (Inr ev # ress, s'')))"

text \<open>
  Whether the payload \<open>data\<close> is a JSON object with a member that matches the field
  name \<open>name\<close>.
\<close>

definition has_member :: "(string \<Rightarrow> json option) \<Rightarrow> string \<Rightarrow> string \<Rightarrow> bool" where
  "has_member parse name data =
     (case parse data of
        Some (JObject kvs) \<Rightarrow> name \<in> set (map (\<lambda>(k, j). fold_name k) kvs)
      | _ \<Rightarrow> False)"

text \<open>
  What claim C4 expects in the Message field after a pull, for comparison with the code:
  the payload decoded directly into a fresh Message.
\<close>

definition claimed_Message :: "(string \<Rightarrow> json option) \<Rightarrow> string \<Rightarrow> Message" where
  "claimed_Message parse data = fst (Unmarshal parse fields_Message data zero_Message)"

text \<open>The Message that \<open>start_json\<close> carries.\<close>

definition example_message :: Message where
  "example_message =
     \<lparr>m_ID = ''m1'', m_Type = [], m_Role = ''assistant'', m_Content = [], m_Model = [],
      m_StopReason = [], m_StopSequence = [],
      m_Usage = \<lparr>InputTokens = 10, OutputTokens = 1\<rparr>\<rparr>"

text \<open>
  A frame sequence as a list of event names with one data line each, and its bytes.
  \<open>delta_usage\<close> is the incremental output-token count that a \<open>message_delta\<close>
  payload carries (\<open>None\<close> when it does not decode or has no usage);
  \<open>delta_sum\<close> adds these counts over the \<open>message_delta\<close> frames of a sequence.
  A frame between \<open>message_start\<close> and \<open>message_stop\<close> is a \<open>message_delta\<close>
  that carries usage or one of the three content-block frames (a ping would be read
  within the pull of the frame after it; the sequences here hold none).
  \<open>output_tokens\<close> reads the output-token count of the Message a handle retains.
\<close>

definition delta_usage :: "(string \<Rightarrow> json option) \<Rightarrow> string \<Rightarrow> go_int option" where
  "delta_usage parse d =
     (case Unmarshal parse fields_MessageDeltaWrapper (d @ ''\<newline>'') zero_MessageDeltaWrapper of
        (delta, None) \<Rightarrow> map_option OutputTokens (mdw_Usage delta)
      | (delta, Some err) \<Rightarrow> None)"




definition output_tokens :: "MessageStream \<Rightarrow> go_int option" where
  "output_tokens s = map_option (\<lambda>m. OutputTokens (m_Usage m)) (ev_Message (event s))"


text \<open>Two responses that are not 2xx.\<close>

definition not_modified_response :: Response where
  "not_modified_response =
     \<lparr>StatusCode = 304, Status = ''304 Not Modified'', Body = \<lparr>unread = [], at_end = EOF\<rparr>,
      CloseResult = None, BodyClosed = False\<rparr>"

definition not_found_response :: Response where
  "not_found_response =
     \<lparr>StatusCode = 404, Status = ''404 Not Found'', Body = \<lparr>unread = [], at_end = EOF\<rparr>,
      CloseResult = None, BodyClosed = False\<rparr>"

section \<open>Reading lines and frames\<close>

lemma split_first_newline:
  "CHR 0x0A \<notin> set l \<Longrightarrow> split_first ''\<newline>'' (l @ CHR 0x0A # rest) = Some (l, rest)"
  by (induction l) auto

lemma ReadString_line:
  "CHR 0x0A \<notin> set l \<Longrightarrow>
   ReadString \<lparr>unread = l @ CHR 0x0A # rest, at_end = x\<rparr> =
     ((l @ ''\<newline>'', None), \<lparr>unread = rest, at_end = x\<rparr>)"
  by (simp add: ReadString_def split_first_newline)

lemma ReadString_end:
  "ReadString \<lparr>unread = [], at_end = x\<rparr> = (([], Some x), \<lparr>unread = [], at_end = x\<rparr>)"
  by (simp add: ReadString_def)

lemma drop_runes_none:
  assumes "s \<noteq> []" and "\<forall>e \<in> set rs. \<not> prefix e s"
  shows "drop_runes rs s = s"
proof -
  from assms(1) obtain c cs where s: "s = c # cs" by (cases s) auto
  from assms(2) have "find (\<lambda>e. prefix e (c # cs)) rs = None"
    by (simp add: find_None_iff s)
  then show ?thesis by (simp add: s)
qed

lemma no_space_suffix_append:
  assumes "wire v" and "e \<in> set space_runes" and "p \<noteq> []" and "last p = CHR 0x20"
  shows "\<not> suffix e (p @ v)"
proof
  assume "suffix e (p @ v)"
  then consider "suffix e v" | xs where "suffix xs p" "e = xs @ v"
    by (auto simp: suffix_append)
  then show False
  proof cases
    case 1
    with assms(1,2) show False by (simp add: wire_def)
  next
    case 2
    show False
    proof (cases "xs = []")
      case True
      with 2 assms(1,2) show False by (auto simp: wire_def)
    next
      case False
      with 2(1) assms(3,4) have "last xs = CHR 0x20"
        by (auto simp: suffix_def)
      with False have "CHR 0x20 \<in> set xs" using last_in_set by metis
      moreover from assms(1) have "v \<noteq> []" by (simp add: wire_def)
      ultimately have "CHR 0x20 \<in> set (butlast e)"
        using 2(2) by (simp add: butlast_append)
      with assms(2) show False
        by (auto simp: space_runes_def)
    qed
  qed
qed

lemma TrimSpace_field_line:
  assumes "wire v" and "p = ''event: '' \<or> p = ''data: ''"
  shows "TrimSpace (p @ v @ ''\<newline>'') = p @ v"
proof -
  have lead: "drop_runes space_runes (p @ v @ ''\<newline>'') = p @ v @ ''\<newline>''"
    using assms(2) by (auto simp: space_runes_def)
  have nl: "drop_runes (map rev space_runes) (CHR 0x0A # rev v @ rev p)
            = drop_runes (map rev space_runes) (rev v @ rev p)"
    by (simp add: space_runes_def)
  have "\<forall>e \<in> set (map rev space_runes). \<not> prefix e (rev v @ rev p)"
  proof
    fix e assume "e \<in> set (map rev space_runes)"
    then obtain e0 where e0: "e0 \<in> set space_runes" "e = rev e0" by auto
    have "p \<noteq> []" "last p = CHR 0x20"
      using assms(2) by auto
    then have "\<not> suffix e0 (p @ v)"
      by (rule no_space_suffix_append [OF assms(1) e0(1)])
    then show "\<not> prefix e (rev v @ rev p)"
      using e0(2) by (metis rev_append suffix_to_prefix)
  qed
  moreover from assms(1) have "rev v @ rev p \<noteq> []" by (simp add: wire_def)
  ultimately have "drop_runes (map rev space_runes) (rev v @ rev p) = rev v @ rev p"
    by (rule drop_runes_none [rotated])
  with lead nl show ?thesis by (simp add: TrimSpace_def)
qed

lemma TrimSpace_blank: "TrimSpace ''\<newline>'' = []"
  by (simp add: TrimSpace_def space_runes_def)

lemma SplitN2_event: "SplitN2 (''event: '' @ v) '': '' = [''event'', v]"
  by (simp add: SplitN2_def)

lemma SplitN2_data: "SplitN2 (''data: '' @ v) '': '' = [''data'', v]"
  by (simp add: SplitN2_def)

text \<open>One turn of the loop on a line that was read without error.\<close>

lemma recv_loop_line:
  assumes "ReadString r = ((l, None), r')"
  shows "recv_loop r et dt =
     (if TrimSpace l = [] then
        (if et = ''ping'' then recv_loop r' et [] else (Inr (et, dt), r'))
      else if length (SplitN2 (TrimSpace l) '': '') \<noteq> 2 then (Inl (InvalidSSE (TrimSpace l)), r')
      else if SplitN2 (TrimSpace l) '': '' ! 0 = ''event''
        then recv_loop r' (SplitN2 (TrimSpace l) '': '' ! 1) dt
      else if SplitN2 (TrimSpace l) '': '' ! 0 = ''data''
        then recv_loop r' et (dt @ SplitN2 (TrimSpace l) '': '' ! 1 @ ''\<newline>'')
      else recv_loop r' et dt)"
  by (subst recv_loop.simps) (simp add: assms Let_def)

lemma recv_loop_event_line:
  assumes "wire e"
  shows "recv_loop \<lparr>unread = ''event: '' @ e @ ''\<newline>'' @ rest, at_end = x\<rparr> et dt =
         recv_loop \<lparr>unread = rest, at_end = x\<rparr> e dt"
proof -
  from assms have nl: "CHR 0x0A \<notin> set (''event: '' @ e)" by (simp add: wire_def)
  have rd: "ReadString \<lparr>unread = ''event: '' @ e @ ''\<newline>'' @ rest, at_end = x\<rparr> =
        (((''event: '' @ e) @ ''\<newline>'', None), \<lparr>unread = rest, at_end = x\<rparr>)"
    using ReadString_line [OF nl, of rest x] by simp
  have tr: "TrimSpace ((''event: '' @ e) @ ''\<newline>'') = ''event: '' @ e"
    using TrimSpace_field_line [OF assms, of "''event: ''"] by simp
  show ?thesis
    unfolding recv_loop_line [OF rd] tr SplitN2_event by simp
qed

lemma recv_loop_data_line:
  assumes "wire d"
  shows "recv_loop \<lparr>unread = ''data: '' @ d @ ''\<newline>'' @ rest, at_end = x\<rparr> et dt =
         recv_loop \<lparr>unread = rest, at_end = x\<rparr> et (dt @ d @ ''\<newline>'')"
proof -
  from assms have nl: "CHR 0x0A \<notin> set (''data: '' @ d)" by (simp add: wire_def)
  have rd: "ReadString \<lparr>unread = ''data: '' @ d @ ''\<newline>'' @ rest, at_end = x\<rparr> =
        (((''data: '' @ d) @ ''\<newline>'', None), \<lparr>unread = rest, at_end = x\<rparr>)"
    using ReadString_line [OF nl, of rest x] by simp
  have tr: "TrimSpace ((''data: '' @ d) @ ''\<newline>'') = ''data: '' @ d"
    using TrimSpace_field_line [OF assms, of "''data: ''"] by simp
  show ?thesis
    unfolding recv_loop_line [OF rd] tr SplitN2_data by simp
qed

lemma recv_loop_blank_line:
  "recv_loop \<lparr>unread = ''\<newline>'' @ rest, at_end = x\<rparr> et dt =
     (if et = ''ping'' then recv_loop \<lparr>unread = rest, at_end = x\<rparr> et []
      else (Inr (et, dt), \<lparr>unread = rest, at_end = x\<rparr>))"
proof -
  have rd: "ReadString \<lparr>unread = ''\<newline>'' @ rest, at_end = x\<rparr> =
        ((''\<newline>'', None), \<lparr>unread = rest, at_end = x\<rparr>)"
    using ReadString_line [of "[]" rest x] by simp
  show ?thesis
    unfolding recv_loop_line [OF rd] TrimSpace_blank by simp
qed

lemma recv_loop_end:
  "recv_loop \<lparr>unread = [], at_end = x\<rparr> et dt =
     (if x = EOF then (Inr (et, dt), \<lparr>unread = [], at_end = x\<rparr>)
      else (Inl x, \<lparr>unread = [], at_end = x\<rparr>))"
  by (subst recv_loop.simps) (simp add: ReadString_end)

lemma recv_loop_data_lines:
  "list_all wire ds \<Longrightarrow>
   recv_loop \<lparr>unread = data_lines ds @ rest, at_end = x\<rparr> et dt =
   recv_loop \<lparr>unread = rest, at_end = x\<rparr> et (dt @ payload ds)"
proof (induction ds arbitrary: dt)
  case Nil
  then show ?case by (simp add: data_lines_def payload_def)
next
  case (Cons d ds)
  have "recv_loop \<lparr>unread = data_lines (d # ds) @ rest, at_end = x\<rparr> et dt =
        recv_loop \<lparr>unread = ''data: '' @ d @ ''\<newline>'' @ (data_lines ds @ rest), at_end = x\<rparr> et dt"
    by (simp add: data_lines_def)
  also have "\<dots> = recv_loop \<lparr>unread = data_lines ds @ rest, at_end = x\<rparr> et (dt @ d @ ''\<newline>'')"
    using Cons.prems by (intro recv_loop_data_line) simp
  also have "\<dots> = recv_loop \<lparr>unread = rest, at_end = x\<rparr> et ((dt @ d @ ''\<newline>'') @ payload ds)"
    using Cons.prems by (intro Cons.IH) simp
  finally show ?case by (simp add: payload_def)
qed

lemma recv_loop_frame:
  assumes "wire e" and "list_all wire ds"
  shows "recv_loop \<lparr>unread = sse_frame e ds @ rest, at_end = x\<rparr> et dt =
     (if e = ''ping'' then recv_loop \<lparr>unread = rest, at_end = x\<rparr> ''ping'' []
      else (Inr (e, dt @ payload ds), \<lparr>unread = rest, at_end = x\<rparr>))"
proof -
  have "recv_loop \<lparr>unread = sse_frame e ds @ rest, at_end = x\<rparr> et dt =
        recv_loop \<lparr>unread = ''event: '' @ e @ ''\<newline>'' @ (data_lines ds @ ''\<newline>'' @ rest),
                   at_end = x\<rparr> et dt"
    by (simp add: sse_frame_def)
  also have "\<dots> = recv_loop \<lparr>unread = data_lines ds @ (''\<newline>'' @ rest), at_end = x\<rparr> e dt"
    by (rule recv_loop_event_line [OF assms(1)])
  also have "\<dots> = recv_loop \<lparr>unread = ''\<newline>'' @ rest, at_end = x\<rparr> e (dt @ payload ds)"
    by (rule recv_loop_data_lines [OF assms(2)])
  also have "\<dots> = (if e = ''ping'' then recv_loop \<lparr>unread = rest, at_end = x\<rparr> ''ping'' []
      else (Inr (e, dt @ payload ds), \<lparr>unread = rest, at_end = x\<rparr>))"
    by (simp only: recv_loop_blank_line) simp
  finally show ?thesis .
qed

text \<open>A pull on a frame that is not a ping: the frame is read, then decoded.\<close>

lemma Recv_frame:
  assumes "wire e" and "list_all wire ds" and "e \<noteq> ''ping''"
  shows "Recv parse (unread_is s (sse_frame e ds @ rest) x) =
         recv_decode parse e (payload ds) (unread_is s rest x)"
  using assms by (simp add: Recv_def unread_is_def recv_loop_frame)

lemma wire_recognized: "list_all wire recognized"
  by (simp add: recognized_def wire_def space_runes_def suffix_to_prefix)

lemma payload_nonempty: "ds \<noteq> [] \<Longrightarrow> payload ds \<noteq> []"
  by (cases ds) (simp_all add: payload_def)

lemma Recv_frame_reader:
  assumes "wire e" and "list_all wire ds" and "e \<noteq> ''ping''"
    and "reader s = \<lparr>unread = sse_frame e ds @ rest, at_end = x\<rparr>"
  shows "Recv parse s = recv_decode parse e (payload ds) (s\<lparr>reader := \<lparr>unread = rest, at_end = x\<rparr>\<rparr>)"
proof -
  have "s = unread_is s (sse_frame e ds @ rest) x"
    using assms(4) by (simp add: unread_is_def)
  then have "Recv parse s = Recv parse (unread_is s (sse_frame e ds @ rest) x)" by simp
  also have "\<dots> = recv_decode parse e (payload ds) (unread_is s rest x)"
    by (rule Recv_frame [OF assms(1-3)])
  finally show ?thesis by (simp add: unread_is_def)
qed

section \<open>The branches of the decoding switch\<close>

lemma event_cases:
  obtains "et = ''message_start'' \<or> et = ''message_stop''"
  | "et = ''message_delta''"
  | "et = ''content_block_start'' \<or> et = ''content_block_stop''"
  | "et = ''content_block_delta''"
  | "et = ''error''"
  | "et \<notin> set [''message_start'', ''message_stop'', ''message_delta'', ''content_block_start'',
        ''content_block_stop'', ''content_block_delta'', ''error'']"
  by auto

lemma recv_decode_no_data: "recv_decode parse et [] s = (Inr (event s), s)"
  by (simp add: recv_decode_def)

lemma recv_decode_message:
  assumes "dt \<noteq> []" and "et = ''message_start'' \<or> et = ''message_stop''"
  shows "recv_decode parse et dt s =
     (case Unmarshal parse fields_MessageStreamEvent dt ((event s)\<lparr>ev_Type := et\<rparr>) of
        (ev, Some err) \<Rightarrow> (Inl err, s\<lparr>event := ev\<rparr>)
      | (ev, None) \<Rightarrow> (Inr ev, s\<lparr>event := ev\<rparr>))"
  using assms(2)
proof
  assume e: "et = ''message_start''"
  show ?thesis
    unfolding e using assms(1)
    by (simp add: recv_decode_def Let_def split: prod.splits option.splits)
next
  assume e: "et = ''message_stop''"
  show ?thesis
    unfolding e using assms(1)
    by (simp add: recv_decode_def Let_def split: prod.splits option.splits)
qed

lemma recv_decode_message_delta:
  assumes "dt \<noteq> []"
  shows "recv_decode parse ''message_delta'' dt s =
     (case Unmarshal parse fields_MessageDeltaWrapper dt zero_MessageDeltaWrapper of
        (delta, Some err) \<Rightarrow> (Inl err, s\<lparr>event := (event s)\<lparr>ev_Type := ''message_delta''\<rparr>\<rparr>)
      | (delta, None) \<Rightarrow>
          (case ev_Message (event s) of
             None \<Rightarrow>
               (Inr ((event s)\<lparr>ev_Type := ''message_delta'', ev_Delta := Some (mdw_Delta delta)\<rparr>),
                s\<lparr>event := (event s)\<lparr>ev_Type := ''message_delta'',
                                     ev_Delta := Some (mdw_Delta delta)\<rparr>\<rparr>)
           | Some m \<Rightarrow>
               (case mdw_Usage delta of
                  None \<Rightarrow>
                    (Inl NilDereference,
                     s\<lparr>event := (event s)\<lparr>ev_Type := ''message_delta'',
                                          ev_Delta := Some (mdw_Delta delta)\<rparr>\<rparr>)
                | Some u \<Rightarrow>
                    (Inr ((event s)\<lparr>ev_Type := ''message_delta'',
                           ev_Delta := Some (mdw_Delta delta),
                           ev_Message := Some (m\<lparr>m_Usage := (m_Usage m)
                              \<lparr>OutputTokens := OutputTokens (m_Usage m) + OutputTokens u\<rparr>\<rparr>)\<rparr>),
                     s\<lparr>event := (event s)\<lparr>ev_Type := ''message_delta'',
                           ev_Delta := Some (mdw_Delta delta),
                           ev_Message := Some (m\<lparr>m_Usage := (m_Usage m)
                              \<lparr>OutputTokens := OutputTokens (m_Usage m) + OutputTokens u\<rparr>\<rparr>)\<rparr>\<rparr>))))"
  using assms by (simp add: recv_decode_def Let_def split: prod.splits option.splits)

lemma recv_decode_content_block:
  assumes "dt \<noteq> []" and "et = ''content_block_start'' \<or> et = ''content_block_stop''"
  shows "recv_decode parse et dt s =
     (case Unmarshal parse fields_ContentBlock dt zero_ContentBlock of
        (contentBlock, Some err) \<Rightarrow> (Inl err, s\<lparr>event := (event s)\<lparr>ev_Type := et\<rparr>\<rparr>)
      | (contentBlock, None) \<Rightarrow>
          (Inr ((event s)\<lparr>ev_Type := et, ev_ContentBlock := Some contentBlock\<rparr>),
           s\<lparr>event := (event s)\<lparr>ev_Type := et, ev_ContentBlock := Some contentBlock\<rparr>\<rparr>))"
  using assms(2)
proof
  assume e: "et = ''content_block_start''"
  show ?thesis
    unfolding e using assms(1)
    by (simp add: recv_decode_def Let_def split: prod.splits option.splits)
next
  assume e: "et = ''content_block_stop''"
  show ?thesis
    unfolding e using assms(1)
    by (simp add: recv_decode_def Let_def split: prod.splits option.splits)
qed

lemma recv_decode_content_block_delta:
  assumes "dt \<noteq> []"
  shows "recv_decode parse ''content_block_delta'' dt s =
     (case Unmarshal parse fields_ContentBlockDelta dt zero_ContentBlockDelta of
        (delta, Some err) \<Rightarrow>
          (Inl err, s\<lparr>event := (event s)\<lparr>ev_Type := ''content_block_delta''\<rparr>\<rparr>)
      | (delta, None) \<Rightarrow>
          (Inr ((event s)\<lparr>ev_Type := ''content_block_delta'',
                 ev_ContentBlock := Some \<lparr>cb_Type = td_Type (cbd_Delta delta),
                                           cb_Text = td_Text (cbd_Delta delta)\<rparr>,
                 ev_Index := cbd_Index delta\<rparr>),
           s\<lparr>event := (event s)\<lparr>ev_Type := ''content_block_delta'',
                 ev_ContentBlock := Some \<lparr>cb_Type = td_Type (cbd_Delta delta),
                                           cb_Text = td_Text (cbd_Delta delta)\<rparr>,
                 ev_Index := cbd_Index delta\<rparr>\<rparr>))"
  using assms by (simp add: recv_decode_def Let_def split: prod.splits option.splits)

lemma recv_decode_error:
  assumes "dt \<noteq> []"
  shows "recv_decode parse ''error'' dt s =
     (Inl (StreamError dt), s\<lparr>event := (event s)\<lparr>ev_Type := ''error''\<rparr>\<rparr>)"
  using assms by (simp add: recv_decode_def)

lemma recv_decode_unknown:
  assumes "dt \<noteq> []"
    and "et \<notin> set [''message_start'', ''message_stop'', ''message_delta'', ''content_block_start'',
        ''content_block_stop'', ''content_block_delta'', ''error'']"
  shows "recv_decode parse et dt s =
     (if ignoreUnknownEvents s
      then (Inr ((event s)\<lparr>ev_Type := et\<rparr>), s\<lparr>event := (event s)\<lparr>ev_Type := et\<rparr>\<rparr>)
      else (Inl (UnknownEvent et), s\<lparr>event := (event s)\<lparr>ev_Type := et\<rparr>\<rparr>))"
  using assms by (simp add: recv_decode_def)

section \<open>The error event\<close>

text \<open>
  C6, as stated, fails. The handle keeps no record of an error: after the pull that
  returns the stream error, the next pull returns the \<open>message_stop\<close> frame that was
  buffered behind the error frame, so the error frame itself does not end the iteration.
  And an \<open>error\<close> frame without a data line returns the event struct with a nil error.
\<close>

theorem error_frame_does_not_end_the_stream:
  "fst (pulls example_parse 2
      (fresh_stream (sse_frame ''error'' [error_json] @ sse_frame ''message_stop'' [stop_json])))
     = [Inl (StreamError (error_json @ ''\<newline>'')),
        Inr (zero_MessageStreamEvent\<lparr>ev_Type := ''message_stop''\<rparr>)]
   \<and> fst (Recv example_parse (fresh_stream (sse_frame ''error'' [])))
     = Inr zero_MessageStreamEvent"
  by code_simp

text \<open>
  C6, amended. For a frame with event name \<open>error\<close> and at least one data line,
  \<open>Recv\<close> returns an error, not an event, that carries the collected data lines,
  whatever bytes \<open>rest\<close> follow the frame in the stream, and leaves those bytes unread;
  only the event struct's type is changed. A caller that stops at the first error ends
  its iteration with this error, whatever follows.
\<close>

theorem error_frame_returns_stream_error:
  assumes "list_all wire ds" and "ds \<noteq> []"
  shows "Recv parse (unread_is s (sse_frame ''error'' ds @ rest) x) =
     (Inl (StreamError (payload ds)),
      unread_is (s\<lparr>event := (event s)\<lparr>ev_Type := ''error''\<rparr>\<rparr>) rest x)
   \<and> pull_until_error parse (Suc n) (unread_is s (sse_frame ''error'' ds @ rest) x) =
     ([Inl (StreamError (payload ds))],
      unread_is (s\<lparr>event := (event s)\<lparr>ev_Type := ''error''\<rparr>\<rparr>) rest x)"
proof -
  have "wire ''error''"
    using wire_recognized by (simp add: recognized_def)
  then have "Recv parse (unread_is s (sse_frame ''error'' ds @ rest) x) =
        recv_decode parse ''error'' (payload ds) (unread_is s rest x)"
    by (rule Recv_frame [OF _ assms(1)]) simp
  also have "\<dots> = (Inl (StreamError (payload ds)),
      unread_is (s\<lparr>event := (event s)\<lparr>ev_Type := ''error''\<rparr>\<rparr>) rest x)"
    using payload_nonempty [OF assms(2)]
    by (simp add: recv_decode_def unread_is_def)
  finally have one: "Recv parse (unread_is s (sse_frame ''error'' ds @ rest) x) =
     (Inl (StreamError (payload ds)),
      unread_is (s\<lparr>event := (event s)\<lparr>ev_Type := ''error''\<rparr>\<rparr>) rest x)" .
  then have "pull_until_error parse (Suc n) (unread_is s (sse_frame ''error'' ds @ rest) x) =
     ([Inl (StreamError (payload ds))],
      unread_is (s\<lparr>event := (event s)\<lparr>ev_Type := ''error''\<rparr>\<rparr>) rest x)"
    by simp
  with one show ?thesis by blast
qed

theorem error_frame_returns_stream_error_witness:
  "list_all wire [error_json] \<and> [error_json] \<noteq> []
   \<and> Recv example_parse
       (unread_is (fresh_stream [])
          (sse_frame ''error'' [error_json] @ sse_frame ''message_stop'' [stop_json]) EOF) =
     (Inl (StreamError (error_json @ ''\<newline>'')),
      unread_is ((fresh_stream [])\<lparr>event := zero_MessageStreamEvent\<lparr>ev_Type := ''error''\<rparr>\<rparr>)
        (sse_frame ''message_stop'' [stop_json]) EOF)
   \<and> pull_until_error example_parse (Suc 5)
       (unread_is (fresh_stream [])
          (sse_frame ''error'' [error_json] @ sse_frame ''message_stop'' [stop_json]) EOF) =
     ([Inl (StreamError (error_json @ ''\<newline>''))],
      unread_is ((fresh_stream [])\<lparr>event := zero_MessageStreamEvent\<lparr>ev_Type := ''error''\<rparr>\<rparr>)
        (sse_frame ''message_stop'' [stop_json]) EOF)"
proof -
  have h1: "list_all wire [error_json]"
    by (simp add: wire_def space_runes_def suffix_to_prefix error_json_def)
  have h2: "[error_json] \<noteq> []"
    by simp
  show ?thesis
    using error_frame_returns_stream_error [OF h1 h2, of example_parse "fresh_stream []"
        "sse_frame ''message_stop'' [stop_json]" EOF 5] h1
    by (simp add: payload_def fresh_stream_def del: pull_until_error.simps)
qed

section \<open>The end of the stream\<close>

lemma recv_loop_not_EOF: "fst (recv_loop r et dt) \<noteq> Inl EOF"
proof (induction r et dt rule: recv_loop.induct)
  case (1 r eventType data)
  show ?case
    apply (subst recv_loop.simps)
    using 1
    apply (auto simp: Let_def split: prod.splits option.splits)
    done
qed

lemma recv_decode_not_EOF: "fst (recv_decode parse et dt s) \<noteq> Inl EOF"
  by (auto simp: recv_decode_def Unmarshal_def Let_def split: prod.splits option.splits if_splits)

text \<open>
  C1. What the code does where the claim expects the stream-exhausted signal
  \<open>io.EOF\<close>: with no unread bytes and the body at \<open>io.EOF\<close>, \<open>Recv\<close> returns
  the event struct as it stands, with a nil error, and the handle is unchanged, so every
  later call does the same. No call of \<open>Recv\<close>, on any handle, returns \<open>io.EOF\<close>.
\<close>

theorem Recv_at_end_of_stream:
  "Recv parse (unread_is s [] EOF) = (Inr (event s), unread_is s [] EOF)
   \<and> fst (Recv parse s') \<noteq> Inl EOF"
proof
  show "Recv parse (unread_is s [] EOF) = (Inr (event s), unread_is s [] EOF)"
    by (simp add: Recv_def unread_is_def recv_loop_end recv_decode_def)
  show "fst (Recv parse s') \<noteq> Inl EOF"
    using recv_loop_not_EOF [of "reader s'" "[]" "[]"]
    by (auto simp: Recv_def recv_decode_not_EOF split: prod.splits sum.splits)
qed

section \<open>A message delta without usage\<close>

text \<open>
  C3. What the code does on a \<open>message_delta\<close> payload without \<open>usage\<close> when the
  event struct holds the Message of an earlier \<open>message_start\<close>: the second pull ends
  in the nil-pointer panic.
\<close>

theorem message_delta_without_usage_panics:
  "fst (Recv example_parse (snd (Recv example_parse
      (fresh_stream (sse_frame ''message_start'' [start_json]
                     @ sse_frame ''message_delta'' [delta_no_usage_json])))))
   = Inl NilDereference"
  by code_simp

section \<open>The tolerance flag\<close>

lemma recv_decode_flag:
  "ignoreUnknownEvents (snd (recv_decode parse et dt s)) = ignoreUnknownEvents s"
proof (cases "dt = []")
  case True
  then show ?thesis by (simp add: recv_decode_no_data)
next
  case False
  show ?thesis
  proof (cases et rule: event_cases)
    case 1
    show ?thesis
      by (simp add: recv_decode_message [OF False 1] split: prod.splits option.splits)
  next
    case 2
    show ?thesis unfolding 2
      by (simp add: recv_decode_message_delta [OF False] split: prod.splits option.splits)
  next
    case 3
    show ?thesis
      by (simp add: recv_decode_content_block [OF False 3] split: prod.splits option.splits)
  next
    case 4
    show ?thesis unfolding 4
      by (simp add: recv_decode_content_block_delta [OF False] split: prod.splits option.splits)
  next
    case 5
    show ?thesis unfolding 5
      by (simp add: recv_decode_error [OF False])
  next
    case 6
    show ?thesis
      by (simp add: recv_decode_unknown [OF False 6])
  qed
qed

lemma Recv_flag: "ignoreUnknownEvents (snd (Recv parse s)) = ignoreUnknownEvents s"
  by (simp add: Recv_def recv_decode_flag split: prod.splits sum.splits)

lemma do_calls_flag:
  "ignoreUnknownEvents (do_calls parse cs s) =
     (ignoreUnknownEvents s \<and> CallErrorUnknownEvent \<notin> set cs)"
proof (induction cs arbitrary: s)
  case Nil
  then show ?case by simp
next
  case (Cons c cs)
  then show ?case
    by (cases c) (auto simp: Recv_flag Close_def ErrorUnknownEvent_def)
qed

text \<open>
  C10. A handle returned by \<open>StreamMessage\<close> has the flag set. \<open>Recv\<close> and
  \<open>Close\<close> leave the flag as it is, \<open>ErrorUnknownEvent\<close> clears it, and after any
  sequence of calls the flag is set exactly when it was set before and the sequence holds
  no call of \<open>ErrorUnknownEvent\<close>: nothing sets it again.
\<close>

theorem tolerance_flag_only_disabled:
  "(StreamMessage c new_err body = Inr s0 \<longrightarrow> ignoreUnknownEvents s0)
   \<and> ignoreUnknownEvents (snd (Recv parse s)) = ignoreUnknownEvents s
   \<and> ignoreUnknownEvents (snd (Close s)) = ignoreUnknownEvents s
   \<and> \<not> ignoreUnknownEvents (ErrorUnknownEvent s)
   \<and> ignoreUnknownEvents (do_calls parse cs s) =
       (ignoreUnknownEvents s \<and> CallErrorUnknownEvent \<notin> set cs)"
proof -
  have "ignoreUnknownEvents s0" if "StreamMessage c new_err body = Inr s0"
    using that
    by (auto simp: StreamMessage_def Let_def split: sum.splits if_splits)
  then show ?thesis
    by (simp add: Recv_flag Close_def ErrorUnknownEvent_def do_calls_flag)
qed

theorem tolerance_flag_only_disabled_witness:
  "StreamMessage (client_answering (ok_response stop_json)) None [] = Inr (fresh_stream stop_json)
   \<and> ignoreUnknownEvents (fresh_stream stop_json)
   \<and> ignoreUnknownEvents
        (do_calls example_parse [CallRecv, CallClose, CallRecv] (fresh_stream stop_json))
   \<and> \<not> ignoreUnknownEvents
        (do_calls example_parse [CallRecv, CallErrorUnknownEvent, CallRecv, CallClose]
           (fresh_stream stop_json))"
proof -
  have h: "StreamMessage (client_answering (ok_response stop_json)) None []
             = Inr (fresh_stream stop_json)"
    by (simp add: StreamMessage_def newRequest_def client_answering_def ok_response_def
          fresh_stream_def StatusBadRequest_def)
  show ?thesis
    using h
      tolerance_flag_only_disabled [of "client_answering (ok_response stop_json)" None "[]"
        "fresh_stream stop_json" example_parse "fresh_stream stop_json"
        "[CallRecv, CallClose, CallRecv]"]
      tolerance_flag_only_disabled [of "client_answering (ok_response stop_json)" None "[]"
        "fresh_stream stop_json" example_parse "fresh_stream stop_json"
        "[CallRecv, CallErrorUnknownEvent, CallRecv, CallClose]"]
    by simp
qed

section \<open>The status of the response\<close>

text \<open>
  C9, as stated, fails: a response with status 304 is not 2xx, and \<open>StreamMessage\<close>
  returns a handle that reads its body.
\<close>

theorem non_2xx_status_opens_stream:
  "StreamMessage (client_answering not_modified_response) None [] =
     Inr \<lparr>resp = not_modified_response, reader = \<lparr>unread = [], at_end = EOF\<rparr>,
          event = zero_MessageStreamEvent, ignoreUnknownEvents = True\<rparr>"
  by (simp add: StreamMessage_def newRequest_def client_answering_def not_modified_response_def
        StatusBadRequest_def)

text \<open>
  C9, amended. When the transport answers the request of \<open>StreamMessage\<close> with a
  response of status 400 or above, \<open>StreamMessage\<close> returns an error and no handle;
  when it answers with any status below 400, \<open>StreamMessage\<close> returns a handle whose
  reader is the response body.
\<close>

theorem status_400_or_above_is_error:
  assumes "newRequest c None ''POST'' ''/v1/messages'' body = Inr req"
    and "httpClient c (req\<lparr>Header := (Header req)(''Accept'' \<mapsto> streamAccept c)\<rparr>) = Inr rsp"
  shows "(StatusBadRequest \<le> StatusCode rsp \<longrightarrow>
      StreamMessage c None body = Inl (HTTPStatusError (Status rsp)))
   \<and> (StatusCode rsp < StatusBadRequest \<longrightarrow>
      (\<exists>s. StreamMessage c None body = Inr s \<and> reader s = Body rsp))"
  using assms by (simp add: StreamMessage_def)

theorem status_400_or_above_is_error_witness:
  "StatusBadRequest \<le> StatusCode not_found_response
   \<and> StreamMessage (client_answering not_found_response) None []
       = Inl (HTTPStatusError ''404 Not Found'')
   \<and> StatusCode (ok_response stop_json) < StatusBadRequest
   \<and> map_sum id reader (StreamMessage (client_answering (ok_response stop_json)) None [])
       = Inr \<lparr>unread = stop_json, at_end = EOF\<rparr>"
proof -
  obtain req1 where r1:
    "newRequest (client_answering not_found_response) None ''POST'' ''/v1/messages'' [] = Inr req1"
    by (simp add: newRequest_def Let_def)
  have d1: "httpClient (client_answering not_found_response)
      (req1\<lparr>Header := (Header req1)(''Accept'' \<mapsto> streamAccept (client_answering not_found_response))\<rparr>)
      = Inr not_found_response"
    by (simp add: client_answering_def)
  have h1: "StatusBadRequest \<le> StatusCode not_found_response"
    by (simp add: not_found_response_def StatusBadRequest_def)
  have k1: "StreamMessage (client_answering not_found_response) None []
       = Inl (HTTPStatusError (Status not_found_response))"
    using status_400_or_above_is_error [OF r1 d1] h1 by blast
  obtain req2 where r2:
    "newRequest (client_answering (ok_response stop_json)) None ''POST'' ''/v1/messages'' [] = Inr req2"
    by (simp add: newRequest_def Let_def)
  have d2: "httpClient (client_answering (ok_response stop_json))
      (req2\<lparr>Header := (Header req2)(''Accept'' \<mapsto> streamAccept (client_answering (ok_response stop_json)))\<rparr>)
      = Inr (ok_response stop_json)"
    by (simp add: client_answering_def)
  have h2: "StatusCode (ok_response stop_json) < StatusBadRequest"
    by (simp add: ok_response_def StatusBadRequest_def)
  have "\<exists>s. StreamMessage (client_answering (ok_response stop_json)) None [] = Inr s
           \<and> reader s = Body (ok_response stop_json)"
    using status_400_or_above_is_error [OF r2 d2] h2 by blast
  then have k2: "map_sum id reader (StreamMessage (client_answering (ok_response stop_json)) None [])
       = Inr \<lparr>unread = stop_json, at_end = EOF\<rparr>"
    by (auto simp: ok_response_def)
  from h1 k1 h2 k2 show ?thesis
    by (simp add: not_found_response_def)
qed

section \<open>Unknown events\<close>

text \<open>
  C5, as stated, fails: after a \<open>message_start\<close>, a frame with an unknown event name
  is returned with the Message of the earlier frame still in the event struct.
\<close>

theorem unknown_event_payload_not_absent:
  "fst (Recv example_parse (snd (Recv example_parse
      (fresh_stream (sse_frame ''message_start'' [start_json]
                     @ sse_frame ''future_event'' [future_json]))))) =
   Inr \<lparr>ev_Type = ''future_event'',
        ev_Message = Some \<lparr>m_ID = ''m1'', m_Type = [], m_Role = ''assistant'', m_Content = [],
            m_Model = [], m_StopReason = [], m_StopSequence = [],
            m_Usage = \<lparr>InputTokens = 10, OutputTokens = 1\<rparr>\<rparr>,
        ev_Delta = None, ev_ContentBlock = None, ev_Index = 0\<rparr>"
  by code_simp

text \<open>
  C5, amended. A frame (the event line and one or more data lines) whose event name is
  none of the eight:
  with tolerance enabled \<open>Recv\<close> returns the event struct with its type set to the
  raw name and every other field (Message, Delta, ContentBlock, Index) as it was before
  the pull; with tolerance disabled it returns the unknown-event error with that name.
\<close>

theorem unknown_event_keeps_payload_fields:
  assumes "wire e" and "list_all wire ds" and "ds \<noteq> []" and "e \<notin> set recognized"
  shows "Recv parse (unread_is s (sse_frame e ds @ rest) x) =
     (if ignoreUnknownEvents s
      then (Inr ((event s)\<lparr>ev_Type := e\<rparr>),
            unread_is (s\<lparr>event := (event s)\<lparr>ev_Type := e\<rparr>\<rparr>) rest x)
      else (Inl (UnknownEvent e),
            unread_is (s\<lparr>event := (event s)\<lparr>ev_Type := e\<rparr>\<rparr>) rest x))"
proof -
  from assms(4) have ne: "e \<noteq> ''ping''"
    and un: "e \<notin> set [''message_start'', ''message_stop'', ''message_delta'',
        ''content_block_start'', ''content_block_stop'', ''content_block_delta'', ''error'']"
    by (auto simp: recognized_def)
  have "Recv parse (unread_is s (sse_frame e ds @ rest) x) =
        recv_decode parse e (payload ds) (unread_is s rest x)"
    by (rule Recv_frame [OF assms(1,2) ne])
  then show ?thesis
    by (simp add: recv_decode_unknown [OF payload_nonempty [OF assms(3)] un] unread_is_def)
qed

theorem unknown_event_keeps_payload_fields_witness:
  "wire ''future_event'' \<and> list_all wire [future_json] \<and> [future_json] \<noteq> []
   \<and> ''future_event'' \<notin> set recognized
   \<and> fst (Recv example_parse
        (unread_is (fresh_stream []) (sse_frame ''future_event'' [future_json]) EOF)) =
      Inr (zero_MessageStreamEvent\<lparr>ev_Type := ''future_event''\<rparr>)
   \<and> fst (Recv example_parse
        (unread_is (ErrorUnknownEvent (fresh_stream []))
           (sse_frame ''future_event'' [future_json]) EOF)) =
      Inl (UnknownEvent ''future_event'')"
proof -
  have h1: "wire ''future_event''"
    by (simp add: wire_def space_runes_def suffix_to_prefix)
  have h2: "list_all wire [future_json]"
    by (simp add: wire_def space_runes_def suffix_to_prefix future_json_def)
  have h3: "[future_json] \<noteq> []" by simp
  have h4: "''future_event'' \<notin> set recognized" by (simp add: recognized_def)
  show ?thesis
    using h1 h2 h4
      unknown_event_keeps_payload_fields [OF h1 h2 h3 h4, of example_parse "fresh_stream []" "[]" EOF]
      unknown_event_keeps_payload_fields [OF h1 h2 h3 h4, of example_parse
        "ErrorUnknownEvent (fresh_stream [])" "[]" EOF]
    by (simp add: fresh_stream_def ErrorUnknownEvent_def)
qed

section \<open>Pings\<close>

text \<open>
  C7, as stated, fails where the ping is only buffered when the stream ends: the loop
  ends with the ping as its event name, and the pull returns the event struct to the
  caller.
\<close>

theorem ping_at_end_of_stream_ends_pull:
  "recv_loop \<lparr>unread = ''event: ping\<newline>'', at_end = EOF\<rparr> [] [] =
     (Inr (''ping'', []), \<lparr>unread = [], at_end = EOF\<rparr>)
   \<and> Recv (\<lambda>_. None) (fresh_stream ''event: ping\<newline>'') =
     (Inr zero_MessageStreamEvent,
      (fresh_stream ''event: ping\<newline>'')\<lparr>reader := \<lparr>unread = [], at_end = EOF\<rparr>\<rparr>)"
  by code_simp

text \<open>
  C7, amended. A ping frame without data that a blank line ends is dropped and the same
  pull reads on, with \<open>ping\<close> as the event name so far and no data; a pull on a
  ping frame followed by another frame returns what the pull on that frame alone returns.
  When the stream ends after the event line of the ping, the loop ends.
\<close>

theorem ping_frame_dropped:
  "recv_loop \<lparr>unread = sse_frame ''ping'' [] @ rest, at_end = x\<rparr> et dt =
     recv_loop \<lparr>unread = rest, at_end = x\<rparr> ''ping'' []
   \<and> (wire e \<and> list_all wire ds \<longrightarrow>
        Recv parse (unread_is s (sse_frame ''ping'' [] @ sse_frame e ds @ rest) x) =
        Recv parse (unread_is s (sse_frame e ds @ rest) x))
   \<and> recv_loop \<lparr>unread = ''event: ping\<newline>'', at_end = EOF\<rparr> et dt =
       (Inr (''ping'', dt), \<lparr>unread = [], at_end = EOF\<rparr>)"
proof -
  have wp: "wire ''ping''"
    using wire_recognized by (simp add: recognized_def)
  have drop: "recv_loop \<lparr>unread = sse_frame ''ping'' [] @ r, at_end = x\<rparr> et' dt' =
     recv_loop \<lparr>unread = r, at_end = x\<rparr> ''ping'' []" for r et' dt'
    using recv_loop_frame [OF wp, of "[]" r x et' dt'] by simp
  have "Recv parse (unread_is s (sse_frame ''ping'' [] @ sse_frame e ds @ rest) x) =
        Recv parse (unread_is s (sse_frame e ds @ rest) x)"
    if "wire e" "list_all wire ds"
    using that
    by (simp add: Recv_def unread_is_def drop recv_loop_frame split: prod.splits sum.splits)
  moreover have "recv_loop \<lparr>unread = ''event: ping\<newline>'', at_end = EOF\<rparr> et dt =
       (Inr (''ping'', dt), \<lparr>unread = [], at_end = EOF\<rparr>)"
    using recv_loop_event_line [OF wp, of "[]" EOF et dt] by (simp add: recv_loop_end)
  ultimately show ?thesis using drop by blast
qed

theorem ping_frame_dropped_witness:
  "wire ''message_stop'' \<and> list_all wire [stop_json]
   \<and> Recv example_parse
       (unread_is (fresh_stream []) (sse_frame ''ping'' [] @ sse_frame ''message_stop'' [stop_json]) EOF)
     = Recv example_parse (unread_is (fresh_stream []) (sse_frame ''message_stop'' [stop_json]) EOF)
   \<and> fst (Recv example_parse (unread_is (fresh_stream []) (sse_frame ''message_stop'' [stop_json]) EOF))
     = Inr (zero_MessageStreamEvent\<lparr>ev_Type := ''message_stop''\<rparr>)"
proof -
  have h1: "wire ''message_stop''"
    by (simp add: wire_def space_runes_def suffix_to_prefix)
  have h2: "list_all wire [stop_json]"
    by (simp add: wire_def space_runes_def suffix_to_prefix stop_json_def)
  have v: "fst (Recv example_parse
      (unread_is (fresh_stream []) (sse_frame ''message_stop'' [stop_json]) EOF))
     = Inr (zero_MessageStreamEvent\<lparr>ev_Type := ''message_stop''\<rparr>)"
    by code_simp
  show ?thesis
    using h1 h2 v
      ping_frame_dropped [of "[]" EOF "[]" "[]" "''message_stop''" "[stop_json]" example_parse
        "fresh_stream []"]
    by simp
qed

section \<open>Content block deltas\<close>

text \<open>
  What such a payload carries, read off its JSON text: an object with the members
  \<open>type\<close>, \<open>index\<close> and \<open>delta\<close> as the service sends them decodes to the text
  and the index it names.
\<close>

lemma decoded_delta_of_object:
  assumes "parse (d @ ''\<newline>'') =
      Some (JObject [(''type'', JString ty), (''index'', JNumber i),
                     (''delta'', JObject [(''type'', JString dty), (''text'', JString t)])])"
    and "- (2 ^ 63) \<le> i" and "i < 2 ^ 63"
  shows "decoded_delta parse d =
      (\<lparr>cbd_Type = ty, cbd_Index = word_of_int i,
        cbd_Delta = \<lparr>td_Type = dty, td_Text = t\<rparr>\<rparr>, None)"
  using assms
  by (simp add: decoded_delta_def Unmarshal_def dec_struct_def fields_ContentBlockDelta_def
      fields_TextDelta_def store_def dec_string_def dec_int_def lower_def
      zero_ContentBlockDelta_def zero_TextDelta_def)

lemma pulls_delta_frames:
  assumes "list_all wire ds" and "list_all (\<lambda>d. snd (decoded_delta parse d) = None) ds"
    and "reader s = \<lparr>unread = delta_frames ds @ rest, at_end = x\<rparr>"
  shows "map seen (fst (pulls parse (length ds) s)) =
       map (\<lambda>d. Inr (Some \<lparr>cb_Type = td_Type (cbd_Delta (fst (decoded_delta parse d))),
                             cb_Text = fragment parse d\<rparr>,
                       cbd_Index (fst (decoded_delta parse d)))) ds
     \<and> collect (fst (pulls parse (length ds) s)) content =
       content @ concat (map (fragment parse) ds)"
  using assms
proof (induction ds arbitrary: s content)
  case Nil
  then show ?case by simp
next
  case (Cons d ds)
  have w: "wire ''content_block_delta''"
    using wire_recognized by (simp add: recognized_def)
  from Cons.prems(2) obtain delta where
    um: "Unmarshal parse fields_ContentBlockDelta (payload [d]) zero_ContentBlockDelta = (delta, None)"
    by (cases "decoded_delta parse d") (simp add: decoded_delta_def payload_def)
  then have dd: "fst (decoded_delta parse d) = delta"
    by (simp add: decoded_delta_def payload_def)
  have rd: "reader s =
      \<lparr>unread = sse_frame ''content_block_delta'' [d] @ (delta_frames ds @ rest), at_end = x\<rparr>"
    using Cons.prems(3) by (simp add: delta_frames_def)
  define ev where "ev = (event s)\<lparr>ev_Type := ''content_block_delta'',
       ev_ContentBlock := Some \<lparr>cb_Type = td_Type (cbd_Delta delta),
                                 cb_Text = td_Text (cbd_Delta delta)\<rparr>,
       ev_Index := cbd_Index delta\<rparr>"
  define s' where "s' = s\<lparr>reader := \<lparr>unread = delta_frames ds @ rest, at_end = x\<rparr>, event := ev\<rparr>"
  have step: "Recv parse s = (Inr ev, s')"
  proof -
    have "Recv parse s = recv_decode parse ''content_block_delta'' (payload [d])
            (s\<lparr>reader := \<lparr>unread = delta_frames ds @ rest, at_end = x\<rparr>\<rparr>)"
      using Cons.prems(1) by (intro Recv_frame_reader [OF w _ _ rd]) simp_all
    also have "\<dots> = (Inr ev, s')"
      by (simp add: recv_decode_content_block_delta payload_nonempty um ev_def s'_def)
    finally show ?thesis .
  qed
  have r': "reader s' = \<lparr>unread = delta_frames ds @ rest, at_end = x\<rparr>"
    by (simp add: s'_def)
  have ih: "map seen (fst (pulls parse (length ds) s')) =
       map (\<lambda>d. Inr (Some \<lparr>cb_Type = td_Type (cbd_Delta (fst (decoded_delta parse d))),
                             cb_Text = fragment parse d\<rparr>,
                       cbd_Index (fst (decoded_delta parse d)))) ds
     \<and> collect (fst (pulls parse (length ds) s')) (accumulate ev content) =
       accumulate ev content @ concat (map (fragment parse) ds)"
    using Cons.prems(1,2) by (intro Cons.IH [OF _ _ r']) simp_all
  have acc: "accumulate ev content = content @ fragment parse d"
    by (simp add: accumulate_def ev_def fragment_def dd)
  have sn: "seen (Inr ev) = Inr (Some \<lparr>cb_Type = td_Type (cbd_Delta (fst (decoded_delta parse d))),
                             cb_Text = fragment parse d\<rparr>,
                       cbd_Index (fst (decoded_delta parse d)))"
    by (simp add: seen_def ev_def fragment_def dd)
  obtain ress s'' where p: "pulls parse (length ds) s' = (ress, s'')"
    by (cases "pulls parse (length ds) s'")
  then have "pulls parse (length (d # ds)) s = (Inr ev # ress, s'')"
    by (simp add: step)
  then show ?case
    using ih sn acc p by simp
qed

text \<open>
  C8. For \<open>content_block_delta\<close> frames whose payloads carry a text fragment and a
  block index, each pull returns an event whose ContentBlock holds the delta's type and
  that fragment and whose Index is that index; a caller that appends the text of each
  returned block, in order, ends with the fragments concatenated. The witness is the
  claim's example: fragments A, B, C at the same index, here 7, give ABC.
\<close>

theorem content_block_delta_fragments:
  assumes "list_all (carried_by parse) ps"
  shows "map seen (fst (pulls parse (length ps)
            (unread_is s (delta_frames (map dp_line ps) @ rest) x))) =
       map (\<lambda>p. Inr (Some \<lparr>cb_Type = dp_delta_type p, cb_Text = dp_text p\<rparr>,
                       word_of_int (dp_index p))) ps
     \<and> collect (fst (pulls parse (length ps)
            (unread_is s (delta_frames (map dp_line ps) @ rest) x))) content =
       content @ concat (map dp_text ps)"
proof -
  have dec: "decoded_delta parse (dp_line p) =
      (\<lparr>cbd_Type = dp_type p, cbd_Index = word_of_int (dp_index p),
        cbd_Delta = \<lparr>td_Type = dp_delta_type p, td_Text = dp_text p\<rparr>\<rparr>, None)"
    if "p \<in> set ps" for p
  proof -
    from that assms have "carried_by parse p" by (simp add: list_all_iff)
    then show ?thesis
      by (intro decoded_delta_of_object) (simp_all add: carried_by_def delta_tree_def)
  qed
  have h1: "list_all wire (map dp_line ps)"
    using assms by (simp add: list_all_iff carried_by_def)
  have h2: "list_all (\<lambda>d. snd (decoded_delta parse d) = None) (map dp_line ps)"
    using dec by (simp add: list_all_iff)
  have m1: "map (\<lambda>d. Inr (Some \<lparr>cb_Type = td_Type (cbd_Delta (fst (decoded_delta parse d))),
                             cb_Text = fragment parse d\<rparr>,
                       cbd_Index (fst (decoded_delta parse d)))) (map dp_line ps) =
       map (\<lambda>p. Inr (Some \<lparr>cb_Type = dp_delta_type p, cb_Text = dp_text p\<rparr>,
                       word_of_int (dp_index p))) ps"
    using dec by (simp add: fragment_def)
  have m2: "map (fragment parse) (map dp_line ps) = map dp_text ps"
    using dec by (simp add: fragment_def)
  have r: "reader (unread_is s (delta_frames (map dp_line ps) @ rest) x) =
      \<lparr>unread = delta_frames (map dp_line ps) @ rest, at_end = x\<rparr>"
    by (simp add: unread_is_def)
  show ?thesis
    using pulls_delta_frames [OF h1 h2 r, of content]
    by (simp only: m1 m2 length_map)
qed

theorem content_block_delta_fragments_witness:
  "list_all (carried_by example_parse) [text_payload ''A'', text_payload ''B'', text_payload ''C'']
   \<and> map seen (fst (pulls example_parse 3
        (unread_is (fresh_stream [])
           (delta_frames [text_json ''A'', text_json ''B'', text_json ''C'']) EOF))) =
      [Inr (Some \<lparr>cb_Type = ''text_delta'', cb_Text = ''A''\<rparr>, 7),
       Inr (Some \<lparr>cb_Type = ''text_delta'', cb_Text = ''B''\<rparr>, 7),
       Inr (Some \<lparr>cb_Type = ''text_delta'', cb_Text = ''C''\<rparr>, 7)]
   \<and> collect (fst (pulls example_parse 3
        (unread_is (fresh_stream [])
           (delta_frames [text_json ''A'', text_json ''B'', text_json ''C'']) EOF))) [] = ''ABC''"
proof -
  have h: "list_all (carried_by example_parse)
      [text_payload ''A'', text_payload ''B'', text_payload ''C'']"
    by code_simp
  show ?thesis
    using h
      content_block_delta_fragments [OF h, of "fresh_stream []" "[]" EOF "[]"]
    by (simp add: text_payload_def numeral_3_eq_3 del: pulls.simps)
qed

section \<open>Message start and message stop\<close>

lemma fields_event_keeps_Message:
  "k \<noteq> ''message'' \<Longrightarrow> ev_Message (fst (fields_MessageStreamEvent k j t)) = ev_Message t"
  by (simp add: fields_MessageStreamEvent_def store_def skip_def split: prod.splits)

lemma dec_fields_keeps_Message:
  "''message'' \<notin> set (map (\<lambda>(k, j). fold_name k) kvs) \<Longrightarrow>
   ev_Message (fst (dec_fields fields_MessageStreamEvent kvs t)) = ev_Message t"
proof (induction kvs arbitrary: t)
  case Nil
  then show ?case by simp
next
  case (Cons kv kvs)
  obtain k j where kv: "kv = (k, j)" by (cases kv)
  obtain t' ok where f: "fields_MessageStreamEvent (fold_name k) j t = (t', ok)"
    by (cases "fields_MessageStreamEvent (fold_name k) j t")
  from Cons.prems kv have "fold_name k \<noteq> ''message''" by auto
  then have "ev_Message t' = ev_Message t"
    using fields_event_keeps_Message [of "fold_name k" j t] f by simp
  moreover have "ev_Message (fst (dec_fields fields_MessageStreamEvent kvs t')) = ev_Message t'"
    using Cons.prems by (intro Cons.IH) simp
  moreover obtain t'' oks where "dec_fields fields_MessageStreamEvent kvs t' = (t'', oks)"
    by (cases "dec_fields fields_MessageStreamEvent kvs t'")
  ultimately show ?case
    by (simp add: kv f)
qed

lemma Unmarshal_keeps_Message:
  assumes "\<not> has_member parse ''message'' data"
  shows "ev_Message (fst (Unmarshal parse fields_MessageStreamEvent data t)) = ev_Message t"
proof (cases "parse data")
  case None
  then show ?thesis by (simp add: Unmarshal_def)
next
  case (Some j)
  show ?thesis
  proof (cases j)
    case (JObject kvs)
    with Some assms have "''message'' \<notin> set (map (\<lambda>(k, j). fold_name k) kvs)"
      by (simp add: has_member_def)
    then have "ev_Message (fst (dec_fields fields_MessageStreamEvent kvs t)) = ev_Message t"
      by (rule dec_fields_keeps_Message)
    moreover obtain t' ok where "dec_fields fields_MessageStreamEvent kvs t = (t', ok)"
      by (cases "dec_fields fields_MessageStreamEvent kvs t")
    ultimately show ?thesis
      by (simp add: Unmarshal_def Some JObject dec_struct_def)
  qed (simp_all add: Unmarshal_def Some dec_struct_def)
qed

text \<open>
  C4, as stated, fails: after the pull of a \<open>message_stop\<close> frame with the payload
  \<open>{"type":"message_stop"}\<close>, the Message field is the Message of the earlier
  \<open>message_start\<close>, not the value that the payload gives when decoded into a Message.
\<close>

theorem message_stop_keeps_earlier_Message:
  "map_sum id ev_Message (fst (Recv example_parse (snd (Recv example_parse
      (fresh_stream (sse_frame ''message_start'' [start_json]
                     @ sse_frame ''message_stop'' [stop_json]))))))
     = Inr (Some example_message)
   \<and> claimed_Message example_parse (payload [stop_json])
     = zero_Message\<lparr>m_Type := ''message_stop''\<rparr>
   \<and> Some example_message \<noteq> Some (claimed_Message example_parse (payload [stop_json]))"
  by code_simp

text \<open>
  C4, amended. For a \<open>message_start\<close> or \<open>message_stop\<close> frame (the event line and
  one or more data lines), \<open>Recv\<close> decodes the payload into the event struct as a
  whole, after setting its type to the event name, and returns that struct or the
  decoding error.
  When the payload has no \<open>message\<close> member, the Message field keeps the value it had
  before the pull.
\<close>

theorem message_frames_decode_into_event:
  assumes "e = ''message_start'' \<or> e = ''message_stop''" and "list_all wire ds" and "ds \<noteq> []"
  shows "Recv parse (unread_is s (sse_frame e ds @ rest) x) =
     (case Unmarshal parse fields_MessageStreamEvent (payload ds) ((event s)\<lparr>ev_Type := e\<rparr>) of
        (ev, Some err) \<Rightarrow> (Inl err, unread_is (s\<lparr>event := ev\<rparr>) rest x)
      | (ev, None) \<Rightarrow> (Inr ev, unread_is (s\<lparr>event := ev\<rparr>) rest x))
   \<and> (\<not> has_member parse ''message'' (payload ds) \<longrightarrow>
        ev_Message (event (snd (Recv parse (unread_is s (sse_frame e ds @ rest) x))))
          = ev_Message (event s))"
proof -
  have w: "wire e" and np: "e \<noteq> ''ping''"
    using assms(1) wire_recognized by (auto simp: recognized_def)
  obtain ev err where
    um: "Unmarshal parse fields_MessageStreamEvent (payload ds) ((event s)\<lparr>ev_Type := e\<rparr>)
           = (ev, err)"
    by (cases "Unmarshal parse fields_MessageStreamEvent (payload ds) ((event s)\<lparr>ev_Type := e\<rparr>)")
  have "Recv parse (unread_is s (sse_frame e ds @ rest) x) =
        recv_decode parse e (payload ds) (unread_is s rest x)"
    by (rule Recv_frame [OF w assms(2) np])
  also have "\<dots> =
     (case Unmarshal parse fields_MessageStreamEvent (payload ds)
             ((event (unread_is s rest x))\<lparr>ev_Type := e\<rparr>) of
        (ev, Some err) \<Rightarrow> (Inl err, (unread_is s rest x)\<lparr>event := ev\<rparr>)
      | (ev, None) \<Rightarrow> (Inr ev, (unread_is s rest x)\<lparr>event := ev\<rparr>))"
    by (rule recv_decode_message [OF payload_nonempty [OF assms(3)] assms(1)])
  finally have dec': "Recv parse (unread_is s (sse_frame e ds @ rest) x) =
     (case err of Some err \<Rightarrow> (Inl err, unread_is (s\<lparr>event := ev\<rparr>) rest x)
      | None \<Rightarrow> (Inr ev, unread_is (s\<lparr>event := ev\<rparr>) rest x))"
    by (simp add: unread_is_def um split: option.splits)
  then have dec: "Recv parse (unread_is s (sse_frame e ds @ rest) x) =
     (case Unmarshal parse fields_MessageStreamEvent (payload ds) ((event s)\<lparr>ev_Type := e\<rparr>) of
        (ev, Some err) \<Rightarrow> (Inl err, unread_is (s\<lparr>event := ev\<rparr>) rest x)
      | (ev, None) \<Rightarrow> (Inr ev, unread_is (s\<lparr>event := ev\<rparr>) rest x))"
    by (simp add: um split: option.splits)
  have "ev_Message (event (snd (Recv parse (unread_is s (sse_frame e ds @ rest) x))))
          = ev_Message (event s)"
    if "\<not> has_member parse ''message'' (payload ds)"
  proof -
    have "ev_Message ev = ev_Message (event s)"
      using Unmarshal_keeps_Message [OF that, of "(event s)\<lparr>ev_Type := e\<rparr>"]
      by (simp add: um)
    then show ?thesis
      unfolding dec' by (simp add: unread_is_def split: option.splits)
  qed
  with dec show ?thesis by blast
qed

lemma after_message_start:
  "snd (Recv example_parse (fresh_stream (sse_frame ''message_start'' [start_json]))) =
     (fresh_stream (sse_frame ''message_start'' [start_json]))
       \<lparr>reader := \<lparr>unread = [], at_end = EOF\<rparr>,
        event := zero_MessageStreamEvent\<lparr>ev_Type := ''message_start'',
                   ev_Message := Some example_message\<rparr>\<rparr>"
  by code_simp

theorem message_frames_decode_into_event_witness:
  "(''message_stop'' = ''message_start'' \<or> ''message_stop'' = ''message_stop'')
   \<and> list_all wire [stop_json] \<and> [stop_json] \<noteq> []
   \<and> \<not> has_member example_parse ''message'' (payload [stop_json])
   \<and> ev_Message (event (snd (Recv example_parse
        (unread_is (snd (Recv example_parse (fresh_stream (sse_frame ''message_start'' [start_json]))))
           (sse_frame ''message_stop'' [stop_json]) EOF))))
      = Some example_message"
proof -
  have h1: "''message_stop'' = ''message_start'' \<or> ''message_stop'' = ''message_stop''" by simp
  have h2: "list_all wire [stop_json]"
    by (simp add: wire_def space_runes_def suffix_to_prefix stop_json_def)
  have h3: "[stop_json] \<noteq> []" by simp
  have h4: "\<not> has_member example_parse ''message'' (payload [stop_json])"
    by code_simp
  let ?s = "snd (Recv example_parse (fresh_stream (sse_frame ''message_start'' [start_json])))"
  have k: "ev_Message (event (snd (Recv example_parse
        (unread_is ?s (sse_frame ''message_stop'' [stop_json] @ []) EOF))))
      = ev_Message (event ?s)"
    using message_frames_decode_into_event [OF h1 h2 h3, of example_parse ?s "[]" EOF] h4
    by blast
  have "ev_Message (event ?s) = Some example_message"
    by (simp add: after_message_start)
  with k h2 h4 show ?thesis by simp
qed

section \<open>The accumulated output-token count\<close>

text \<open>
  The count that a \<open>message_delta\<close> payload of the service's shape carries.
\<close>

lemma delta_usage_of_object:
  assumes "parse (d @ ''\<newline>'') =
      Some (JObject [(''type'', JString ty),
                     (''delta'', JObject [(''stop_reason'', JString r)]),
                     (''usage'', JObject [(''output_tokens'', JNumber n)])])"
    and "- (2 ^ 63) \<le> n" and "n < 2 ^ 63"
  shows "delta_usage parse d = Some (word_of_int n)"
  using assms
  by (simp add: delta_usage_def Unmarshal_def dec_struct_def fields_MessageDeltaWrapper_def
      fields_MessageDelta_def fields_Usage_def store_def dec_string_def dec_int_def dec_ptr_def
      lower_def zero_MessageDeltaWrapper_def zero_MessageDelta_def zero_Usage_def)









end
